theory Spec2Isabelle
  imports Main
begin

section \<open>The drops relay server: data model\<close>

text \<open>
  The embedding follows \<^verbatim>\<open>handler.go\<close> and the \<^verbatim>\<open>Server\<close> struct of package
  \<^verbatim>\<open>drops\<close>. Go pointers to \<^verbatim>\<open>clientConn\<close> objects are addresses into an explicit
  store (\<open>conns\<close>), because a station and a pending run both keep a pointer to a
  connection that other handlers write to. A \<^verbatim>\<open>Station\<close> object is only ever referenced
  from one key of the \<^verbatim>\<open>stations\<close> map, so stations are stored by value.

  The mutexes are not modelled: a handler call is one atomic step. Handlers that run
  at the same time under the read lock of the registry work on different fields (the
  metrics of a station under its lock \<^verbatim>\<open>m\<close>, its runs under \<^verbatim>\<open>runsM\<close>). What the atomic
  step leaves out is the order in which the separate writes of two goroutines reach
  one connection.
\<close>

type_synonym connId = nat

text \<open>
  \<^verbatim>\<open>clientConn\<close>: the tag \<open>name\<close> and the embedded \<^verbatim>\<open>net.Conn\<close>. Of the transport only the
  bytes handed to \<^verbatim>\<open>Write\<close> are kept, in \<open>sent\<close>, in the order of the calls. Write errors
  are ignored by the code, so they are not part of the model.
\<close>

record clientConn =
  name :: string
  sent :: string

text \<open>\<^verbatim>\<open>metric\<close>: \<open>ts\<close> is the Unix time in seconds, the value an opaque float.\<close>

record 'f metric =
  ts :: int
  mvalue :: 'f

text \<open>\<^verbatim>\<open>run\<close>: the requester's connection and the name the RUN was addressed to.\<close>

record run =
  client :: connId
  run_name :: string

text \<open>\<^verbatim>\<open>Station\<close>: field \<^verbatim>\<open>c\<close> of the source is \<open>st_c\<close> here.\<close>

record 'f Station =
  metrics :: "string \<rightharpoonup> 'f metric list"
  st_c :: connId
  tipe :: string
  runs :: "string \<rightharpoonup> run"

text \<open>\<^verbatim>\<open>Server\<close>, with the store of \<^verbatim>\<open>clientConn\<close> objects added as \<open>conns\<close>.\<close>

record 'f Server =
  maxMetricPoints :: int
  stations :: "string \<rightharpoonup> 'f Station"
  conns :: "connId \<Rightarrow> clientConn"

text \<open>
  What a handler call reads from outside the program: \<^verbatim>\<open>strconv.ParseFloat\<close>, the two
  \<^verbatim>\<open>Sprintf\<close> verbs used by METRICS, the clock, and the order in which the Go runtime
  ranges over a map during this call.
\<close>

record 'f runtime =
  ParseFloat :: "string \<Rightarrow> 'f option"
  Sprintf_d :: "int \<Rightarrow> string"
  Sprintf_f :: "'f \<Rightarrow> string"
  Now :: int
  rangeOrder :: "string list"

text \<open>The errors the handlers build with \<^verbatim>\<open>errors.Errorf\<close>, one constructor per message.\<close>

datatype error =
    BadArgCount "string list"
  | AlreadyRegistered string
  | NotFloat string
  | NotStationTelemetry
  | NotStationRPC
  | UnknownStation string
  | UnknownMetric string string
  | NonceInUse string
  | UnknownNonce string

type_synonym 'f handlerFunc =
  "connId \<Rightarrow> string list \<Rightarrow> 'f Server \<Rightarrow> (error + string) \<times> 'f Server"

definition newline :: string where
  "newline = [CHR 0x0A]"

definition NewServer :: "int \<Rightarrow> 'f Server" where
  "NewServer mx =
     \<lparr>maxMetricPoints = mx, stations = Map.empty,
      conns = (\<lambda>_. \<lparr>name = [], sent = []\<rparr>)\<rparr>"

text \<open>A write to the connection at an address: the bytes are appended to what it was sent.\<close>

definition Fprintf :: "connId \<Rightarrow> string \<Rightarrow> 'f Server \<Rightarrow> 'f Server" where
  "Fprintf w str s =
     s\<lparr>conns := (conns s)(w := (conns s w)\<lparr>sent := sent (conns s w) @ str\<rparr>)\<rparr>"

definition Fprintln :: "connId \<Rightarrow> string \<Rightarrow> 'f Server \<Rightarrow> 'f Server" where
  "Fprintln w str s = Fprintf w (str @ newline) s"

text \<open>
  A \<^verbatim>\<open>range\<close> over a map visits each key once, in the order the runtime picked for
  this call.
\<close>

definition rangeKeys :: "string list \<Rightarrow> (string \<rightharpoonup> 'v) \<Rightarrow> string list" where
  "rangeKeys order m = filter (\<lambda>k. m k \<noteq> None) (remdups order)"

section \<open>The handlers\<close>

definition handleRegister :: "'f handlerFunc" where
  "handleRegister conn args s =
     (if length args \<noteq> 2 then (Inl (BadArgCount args), s)
      else
        let nm = args ! 0; tp = args ! 1 in
        if stations s nm \<noteq> None then (Inl (AlreadyRegistered nm), s)
        else
          (Inr ''ACK'',
           s\<lparr>stations := (stations s)(nm \<mapsto>
                 \<lparr>metrics = Map.empty, st_c = conn, tipe = tp, runs = Map.empty\<rparr>),
             conns := (conns s)(conn := (conns s conn)\<lparr>name := nm\<rparr>)\<rparr>))"

definition handleList :: "'f runtime \<Rightarrow> 'f handlerFunc" where
  "handleList rt conn args s =
     (if length args \<noteq> 0 then (Inl (BadArgCount args), s)
      else
        (Inr (''LIST'' @
              concat (map (\<lambda>nm. case stations s nm of
                                   None \<Rightarrow> []
                                 | Some st \<Rightarrow> '' '' @ nm @ '':'' @ tipe st)
                          (rangeKeys (rangeOrder rt) (stations s)))),
         s))"

definition handleMetric :: "'f runtime \<Rightarrow> 'f handlerFunc" where
  "handleMetric rt conn args s =
     (if length args \<noteq> 2 then (Inl (BadArgCount args), s)
      else
        let nm = args ! 0; stringValue = args ! 1 in
        case ParseFloat rt stringValue of
          None \<Rightarrow> (Inl (NotFloat stringValue), s)
        | Some floatValue \<Rightarrow>
            if name (conns s conn) = [] then (Inl NotStationTelemetry, s)
            else
              (case stations s (name (conns s conn)) of
                 None \<Rightarrow> (Inl (UnknownStation (name (conns s conn))), s)
               | Some station \<Rightarrow>
                   let appended =
                         (case metrics station nm of None \<Rightarrow> [] | Some ms \<Rightarrow> ms)
                           @ [\<lparr>ts = Now rt, mvalue = floatValue\<rparr>];
                       kept =
                         (if int (length appended) > maxMetricPoints s
                          then drop 1 appended else appended)
                   in (Inr ''ACK'',
                       s\<lparr>stations := (stations s)(name (conns s conn) \<mapsto>
                             station\<lparr>metrics := (metrics station)(nm \<mapsto> kept)\<rparr>)\<rparr>)))"

definition handleMetrics :: "'f runtime \<Rightarrow> 'f handlerFunc" where
  "handleMetrics rt conn args s =
     (if length args < 1 \<or> length args > 2 then (Inl (BadArgCount args), s)
      else
        let nm = args ! 0 in
        case stations s nm of
          None \<Rightarrow> (Inl (UnknownStation nm), s)
        | Some station \<Rightarrow>
            let buf = ''METRICS '' @ nm in
            if length args = 1 then
              (Inr (buf @ concat (map (\<lambda>k. '' '' @ k)
                                      (rangeKeys (rangeOrder rt) (metrics station)))),
               s)
            else
              let metric = args ! 1 in
              (case metrics station metric of
                 None \<Rightarrow> (Inl (UnknownMetric metric nm), s)
               | Some ms \<Rightarrow>
                   (Inr (buf @ '' '' @ metric @
                         concat (map (\<lambda>m. '' '' @ Sprintf_d rt (ts m) @ '':''
                                             @ Sprintf_f rt (mvalue m)) ms)),
                    s)))"

definition handleRun :: "'f handlerFunc" where
  "handleRun conn args s =
     (if length args < 3 \<or> length args > 4 then (Inl (BadArgCount args), s)
      else
        let nm = args ! 0; fn = args ! 1; nonce = args ! 2 in
        case stations s nm of
          None \<Rightarrow> (Inl (UnknownStation nm), s)
        | Some station \<Rightarrow>
            if runs station nonce \<noteq> None then (Inl (NonceInUse nonce), s)
            else
              let s1 = Fprintf (st_c station) (''RUN '' @ fn @ '' '' @ nonce) s;
                  s2 = (if length args = 4
                        then Fprintf (st_c station) ('' '' @ args ! 3) s1 else s1);
                  s3 = Fprintf (st_c station) newline s2
              in (Inr ''ACK'',
                  s3\<lparr>stations := (stations s3)(nm \<mapsto>
                        station\<lparr>runs := (runs station)(nonce \<mapsto>
                          \<lparr>client = conn, run_name = nm\<rparr>)\<rparr>)\<rparr>))"

definition handleDone :: "'f handlerFunc" where
  "handleDone conn args s =
     (if length args < 2 \<or> length args > 3 then (Inl (BadArgCount args), s)
      else
        let fn = args ! 0; nonce = args ! 1 in
        if name (conns s conn) = [] then (Inl NotStationRPC, s)
        else
          case stations s (name (conns s conn)) of
            None \<Rightarrow> (Inl (UnknownStation (name (conns s conn))), s)
          | Some station \<Rightarrow>
              (case runs station nonce of
                 None \<Rightarrow> (Inl (UnknownNonce nonce), s)
               | Some r \<Rightarrow>
                   let s1 = Fprintf (client r)
                              (''DONE '' @ run_name r @ '' '' @ fn @ '' '' @ nonce) s;
                       s2 = (if length args = 3
                             then Fprintf (client r) ('' '' @ args ! 2) s1 else s1);
                       s3 = Fprintf (client r) newline s2
                   in (Inr ''ACK'',
                       s3\<lparr>stations := (stations s3)(name (conns s conn) \<mapsto>
                             station\<lparr>runs := (runs station)(nonce := None)\<rparr>)\<rparr>)))"

definition handleError :: "'f handlerFunc" where
  "handleError conn args s =
     (if length args \<noteq> 2 then (Inl (BadArgCount args), s)
      else
        let fn = args ! 0; nonce = args ! 1 in
        if name (conns s conn) = [] then (Inl NotStationRPC, s)
        else
          case stations s (name (conns s conn)) of
            None \<Rightarrow> (Inl (UnknownStation (name (conns s conn))), s)
          | Some station \<Rightarrow>
              (case runs station nonce of
                 None \<Rightarrow> (Inl (UnknownNonce nonce), s)
               | Some r \<Rightarrow>
                   let s1 = Fprintf (client r)
                              (''ERR '' @ run_name r @ '' '' @ fn @ '' '' @ nonce @ newline) s
                   in (Inr ''ACK'',
                       s1\<lparr>stations := (stations s1)(name (conns s conn) \<mapsto>
                             station\<lparr>runs := (runs station)(nonce := None)\<rparr>)\<rparr>)))"

section \<open>The dispatcher\<close>

text \<open>
  \<^verbatim>\<open>strings.Split(scan, " ")\<close>, for the one-byte separator the dispatcher passes: the
  pieces between the separators, so a text without a separator is its only piece.
\<close>

fun Split :: "string \<Rightarrow> char \<Rightarrow> string list" where
  "Split [] sep = [[]]"
| "Split (x # xs) sep =
     (if x = sep then [] # Split xs sep
      else (case Split xs sep of
              [] \<Rightarrow> [[x]]
            | t # tks \<Rightarrow> (x # t) # tks))"

text \<open>The \<^verbatim>\<open>switch cmdName\<close> of the loop; \<open>None\<close> is its \<^verbatim>\<open>default\<close> branch.\<close>

definition handlerFor :: "'f runtime \<Rightarrow> string \<Rightarrow> 'f handlerFunc option" where
  "handlerFor rt cmdName =
     (if cmdName = ''LIST'' then Some (handleList rt)
      else if cmdName = ''REGISTER'' then Some handleRegister
      else if cmdName = ''METRIC'' then Some (handleMetric rt)
      else if cmdName = ''METRICS'' then Some (handleMetrics rt)
      else if cmdName = ''RUN'' then Some handleRun
      else if cmdName = ''DONE'' then Some handleDone
      else if cmdName = ''ERR'' then Some handleError
      else None)"

text \<open>One pass through the body of the scanner loop, for the text \<open>scan\<close>.\<close>

definition handleLine :: "'f runtime \<Rightarrow> connId \<Rightarrow> string \<Rightarrow> 'f Server \<Rightarrow> 'f Server" where
  "handleLine rt conn scan s =
     (let cmdParts = Split scan CHR '' '' in
      if length cmdParts < 1 then Fprintf conn (''ERR'' @ newline) s
      else
        let cmdName = cmdParts ! 0 in
        case handlerFor rt cmdName of
          None \<Rightarrow> Fprintf conn (''ERR UNRECOGNIZED CMD'' @ newline) s
        | Some fn \<Rightarrow>
            (case fn conn (drop 1 cmdParts) s of
               (Inl err, s') \<Rightarrow> Fprintf conn (''ERR'' @ newline) s'
             | (Inr resp, s') \<Rightarrow> Fprintln conn resp s'))"

text \<open>
  The scanner loop over the texts \<^verbatim>\<open>scanner.Text()\<close> yields until \<^verbatim>\<open>scanner.Scan()\<close>
  returns false, each with the runtime readings in effect while it is handled.
\<close>

fun scanLoop :: "connId \<Rightarrow> ('f runtime \<times> string) list \<Rightarrow> 'f Server \<Rightarrow> 'f Server" where
  "scanLoop conn [] s = s"
| "scanLoop conn ((rt, scan) # rest) s = scanLoop conn rest (handleLine rt conn scan s)"

text \<open>The code of \<^verbatim>\<open>handle\<close> after the loop.\<close>

definition unregister :: "connId \<Rightarrow> 'f Server \<Rightarrow> 'f Server" where
  "unregister conn s =
     (if name (conns s conn) \<noteq> []
      then (if stations s (name (conns s conn)) \<noteq> None
            then s\<lparr>stations := (stations s)(name (conns s conn) := None)\<rparr>
            else s)
      else s)"

text \<open>
  \<^verbatim>\<open>handle\<close>: a fresh \<^verbatim>\<open>clientConn\<close> with the empty tag around the accepted transport,
  the loop, the clean-up.
\<close>

definition handle :: "connId \<Rightarrow> ('f runtime \<times> string) list \<Rightarrow> 'f Server \<Rightarrow> 'f Server" where
  "handle conn inputs s =
     unregister conn
       (scanLoop conn inputs
          (s\<lparr>conns := (conns s)(conn := (conns s conn)\<lparr>name := []\<rparr>)\<rparr>))"

section \<open>Connections running side by side\<close>

text \<open>
  \<^verbatim>\<open>Serve\<close> starts one \<^verbatim>\<open>handle\<close> per accepted connection. Their handler calls
  interleave; an event is one loop pass of one connection, or the end of its loop.
  The second component of the system state is the set of connections whose
  \<^verbatim>\<open>handle\<close> has returned: nothing is read from them any more. An address stands
  for one accepted connection; the store of \<^verbatim>\<open>NewServer\<close> holds at every address the
  \<^verbatim>\<open>clientConn\<close> that \<^verbatim>\<open>handle\<close> starts with, with the empty tag and nothing written.
\<close>

datatype 'f event = Line connId "'f runtime" string | Closed connId

fun step :: "'f event \<Rightarrow> 'f Server \<times> connId set \<Rightarrow> 'f Server \<times> connId set" where
  "step (Line conn rt scan) (s, gone) =
     (if conn \<in> gone then (s, gone) else (handleLine rt conn scan s, gone))"
| "step (Closed conn) (s, gone) =
     (if conn \<in> gone then (s, gone) else (unregister conn s, insert conn gone))"

fun run_events :: "'f event list \<Rightarrow> 'f Server \<times> connId set \<Rightarrow> 'f Server \<times> connId set" where
  "run_events [] sys = sys"
| "run_events (ev # evs) sys = run_events evs (step ev sys)"

section \<open>Invariants of the server state\<close>

text \<open>Every pending run sits in the table of the station its \<open>run_name\<close> names.\<close>

definition runs_named :: "'f Server \<Rightarrow> bool" where
  "runs_named s \<longleftrightarrow>
     (\<forall>nm st nonce r. stations s nm = Some st \<and> runs st nonce = Some r \<longrightarrow> run_name r = nm)"

text \<open>
  Every open connection with a non-empty tag owns the station registered under that
  tag. \<open>gone\<close> is the set of connections whose loop has ended.
\<close>

definition owner_inv :: "'f Server \<Rightarrow> connId set \<Rightarrow> bool" where
  "owner_inv s gone \<longleftrightarrow>
     (\<forall>k. k \<notin> gone \<and> name (conns s k) \<noteq> [] \<longrightarrow>
        (\<exists>st. stations s (name (conns s k)) = Some st \<and> st_c st = k))"

text \<open>The station under \<open>nm\<close> is there and belongs to connection \<open>conn\<close>.\<close>

definition owned_by :: "'f Server \<Rightarrow> string \<Rightarrow> connId \<Rightarrow> bool" where
  "owned_by s nm conn \<longleftrightarrow> (\<exists>st. stations s nm = Some st \<and> st_c st = conn)"

text \<open>No stored series is longer than the cap.\<close>

definition capped :: "'f Server \<Rightarrow> bool" where
  "capped s \<longleftrightarrow>
     (\<forall>nm st m pts. stations s nm = Some st \<and> metrics st m = Some pts \<longrightarrow>
        int (length pts) \<le> maxMetricPoints s)"



section \<open>The sessions of the repository's tests\<close>

text \<open>
  The runtime of the tests: the mock clock stands at 0, and the five values the tests
  report parse to 1 .. 5 (integers stand for the floats).
\<close>

definition ex_runtime :: "int runtime" where
  "ex_runtime =
     \<lparr>ParseFloat = map_of [(''1'', 1), (''2'', 2), (''3'', 3), (''4'', 4), (''5'', 5)],
      Sprintf_d = (\<lambda>_. ''0''), Sprintf_f = (\<lambda>_. ''0.00''), Now = 0,
      rangeOrder = [''water'']\<rparr>"

text \<open>
  The states of \<^verbatim>\<open>TestRpcSuccess\<close>, with a cap of 4 points: connection 0 registers as
  station \<^verbatim>\<open>water\<close>, then connection 1 runs \<^verbatim>\<open>test\<close> on it under the nonce
  \<^verbatim>\<open>123123123\<close>.
\<close>

definition ex_registered :: "int Server" where
  "ex_registered = snd (handleRegister 0 [''water'', ''source''] (NewServer 4))"


text \<open>The same two steps as lines read by the dispatcher, answers included.\<close>

definition ex_session :: "int Server" where
  "ex_session =
     fst (run_events [Line 0 ex_runtime ''REGISTER water source'',
                      Line 1 ex_runtime ''RUN water test 123123123 1''] (NewServer 4, {}))"

text \<open>
  The session of the test \<^verbatim>\<open>MaxMetricCount\<close>: with a cap of 4, connection 0 registers
  as \<^verbatim>\<open>water\<close> and reports the level five times.
\<close>

definition ex_metrics :: "int Server" where
  "ex_metrics =
     fst (run_events [Line 0 ex_runtime ''REGISTER water source'',
                      Line 0 ex_runtime ''METRIC level 1'',
                      Line 0 ex_runtime ''METRIC level 2'',
                      Line 0 ex_runtime ''METRIC level 3'',
                      Line 0 ex_runtime ''METRIC level 4'',
                      Line 0 ex_runtime ''METRIC level 5''] (NewServer 4, {}))"

section \<open>Basic facts\<close>

lemma Fprintf_stations [simp]: "stations (Fprintf w str s) = stations s"
  by (simp add: Fprintf_def)

lemma Fprintf_maxMetricPoints [simp]: "maxMetricPoints (Fprintf w str s) = maxMetricPoints s"
  by (simp add: Fprintf_def)

lemma Fprintf_name [simp]: "name (conns (Fprintf w str s) k) = name (conns s k)"
  by (simp add: Fprintf_def)

lemma Fprintf_sent:
  "sent (conns (Fprintf w str s) k) = (if k = w then sent (conns s k) @ str else sent (conns s k))"
  by (simp add: Fprintf_def)

lemma Fprintf_Fprintf: "Fprintf w b (Fprintf w a s) = Fprintf w (a @ b) s"
  by (simp add: Fprintf_def)

text \<open>
  \<open>Split\<close> against what \<^verbatim>\<open>strings.Split\<close> promises: one piece more than there are
  separators, no separator inside a piece, and the pieces joined by the separator
  give the text back.
\<close>

lemma Split_nonempty: "Split xs sep \<noteq> []"
  by (induction xs) (auto split: list.splits)

lemma Split_length: "length (Split xs sep) = Suc (count_list xs sep)"
  by (induction xs) (auto split: list.splits)

lemma Split_pieces: "t \<in> set (Split xs sep) \<Longrightarrow> sep \<notin> set t"
  by (induction xs arbitrary: t) (auto split: list.splits if_splits)

lemma Split_no_separator: "sep \<notin> set xs \<Longrightarrow> Split xs sep = [xs]"
  by (induction xs) auto

lemma Split_join:
  "concat (map (\<lambda>t. sep # t) (Split xs sep)) = sep # xs"
  by (induction xs) (auto split: list.splits)

text \<open>
  \<open>rangeKeys\<close> visits every key of the map once when the order the runtime picked
  lists them all.
\<close>

lemma rangeKeys_all:
  "dom m \<subseteq> set order \<Longrightarrow> set (rangeKeys order m) = dom m \<and> distinct (rangeKeys order m)"
  by (auto simp: rangeKeys_def)

lemma handleRegister_error: "handleRegister conn args s = (Inl e, s') \<Longrightarrow> s' = s"
  by (auto simp: handleRegister_def Let_def split: if_splits)

lemma handleList_error: "handleList rt conn args s = (Inl e, s') \<Longrightarrow> s' = s"
  by (auto simp: handleList_def split: if_splits)

lemma handleMetric_error: "handleMetric rt conn args s = (Inl e, s') \<Longrightarrow> s' = s"
  by (auto simp: handleMetric_def Let_def split: if_splits option.splits)

lemma handleMetrics_error: "handleMetrics rt conn args s = (Inl e, s') \<Longrightarrow> s' = s"
  by (auto simp: handleMetrics_def Let_def split: if_splits option.splits)

lemma handleRun_error: "handleRun conn args s = (Inl e, s') \<Longrightarrow> s' = s"
  by (auto simp: handleRun_def Let_def split: if_splits option.splits)

lemma handleDone_error: "handleDone conn args s = (Inl e, s') \<Longrightarrow> s' = s"
  by (auto simp: handleDone_def Let_def split: if_splits option.splits)

lemma handleError_error: "handleError conn args s = (Inl e, s') \<Longrightarrow> s' = s"
  by (auto simp: handleError_def Let_def split: if_splits option.splits)

lemma handlerFor_error:
  "handlerFor rt cmdName = Some fn \<Longrightarrow> fn conn args s = (Inl e, s') \<Longrightarrow> s' = s"
  by (auto simp: handlerFor_def split: if_splits
      dest: handleRegister_error handleList_error handleMetric_error handleMetrics_error
        handleRun_error handleDone_error handleError_error)

text \<open>The failures the protocol names, each with the error the handler returns.\<close>

lemma listed_errors:
  "length args \<noteq> 2 \<Longrightarrow> handleRegister conn args s = (Inl (BadArgCount args), s)"
  "length args \<noteq> 0 \<Longrightarrow> handleList rt conn args s = (Inl (BadArgCount args), s)"
  "length args \<noteq> 2 \<Longrightarrow> handleMetric rt conn args s = (Inl (BadArgCount args), s)"
  "length args < 1 \<or> 2 < length args \<Longrightarrow>
     handleMetrics rt conn args s = (Inl (BadArgCount args), s)"
  "length args < 3 \<or> 4 < length args \<Longrightarrow> handleRun conn args s = (Inl (BadArgCount args), s)"
  "length args < 2 \<or> 3 < length args \<Longrightarrow> handleDone conn args s = (Inl (BadArgCount args), s)"
  "length args \<noteq> 2 \<Longrightarrow> handleError conn args s = (Inl (BadArgCount args), s)"
  "ParseFloat rt v = None \<Longrightarrow> handleMetric rt conn [m, v] s = (Inl (NotFloat v), s)"
  "stations s nm \<noteq> None \<Longrightarrow> handleRegister conn [nm, tp] s = (Inl (AlreadyRegistered nm), s)"
  "stations s nm = None \<Longrightarrow> handleMetrics rt conn [nm] s = (Inl (UnknownStation nm), s)"
  "stations s nm = Some st \<Longrightarrow> metrics st m = None \<Longrightarrow>
     handleMetrics rt conn [nm, m] s = (Inl (UnknownMetric m nm), s)"
  by (auto simp: handleRegister_def handleList_def handleMetric_def handleMetrics_def
      handleRun_def handleDone_def handleError_def Let_def)

section \<open>What a loop pass can do to the state\<close>

text \<open>
  A property kept by a write and by each of the seven handlers is kept by a loop pass,
  by the clean-up if removing a station keeps it, and so by every interleaving.
\<close>

lemma handlerFor_cases:
  assumes "handlerFor rt cmdName = Some fn"
  shows "fn = handleList rt \<or> fn = handleRegister \<or> fn = handleMetric rt
    \<or> fn = handleMetrics rt \<or> fn = handleRun \<or> fn = handleDone \<or> fn = handleError"
  using assms by (auto simp: handlerFor_def split: if_splits)

lemma handleList_state: "snd (handleList rt conn args s) = s"
  by (simp add: handleList_def)

lemma handleMetrics_state: "snd (handleMetrics rt conn args s) = s"
  by (simp add: handleMetrics_def Let_def split: option.splits)

lemma handleLine_preserves:
  assumes w: "\<And>w str s. P s \<Longrightarrow> P (Fprintf w str s)"
    and reg: "\<And>args s. P s \<Longrightarrow> P (snd (handleRegister conn args s))"
    and met: "\<And>args s. P s \<Longrightarrow> P (snd (handleMetric rt conn args s))"
    and run: "\<And>args s. P s \<Longrightarrow> P (snd (handleRun conn args s))"
    and don: "\<And>args s. P s \<Longrightarrow> P (snd (handleDone conn args s))"
    and err: "\<And>args s. P s \<Longrightarrow> P (snd (handleError conn args s))"
    and P: "P s"
  shows "P (handleLine rt conn scan s)"
proof (cases "handlerFor rt (Split scan CHR '' '' ! 0)")
  case None
  then show ?thesis
    using P w by (simp add: handleLine_def Let_def)
next
  case (Some fn)
  let ?args = "drop 1 (Split scan CHR '' '')"
  have "P (snd (fn conn ?args s))"
    using handlerFor_cases [OF Some] reg met run don err P
    by (auto simp: handleList_state handleMetrics_state)
  then show ?thesis
    using Some P w
    by (auto simp: handleLine_def Let_def Fprintln_def split: prod.splits sum.splits)
qed

lemma handleLine_error:
  assumes "handlerFor rt (Split scan CHR '' '' ! 0) = Some fn"
    and "fn conn (drop 1 (Split scan CHR '' '')) s = (Inl e, s')"
  shows "handleLine rt conn scan s = Fprintf conn (''ERR'' @ newline) s"
proof -
  have "s' = s"
    using handlerFor_error [OF assms] .
  then show ?thesis
    using assms by (simp add: handleLine_def Let_def Split_nonempty)
qed

lemma handleLine_unrecognized:
  assumes "handlerFor rt (Split scan CHR '' '' ! 0) = None"
  shows "handleLine rt conn scan s = Fprintf conn (''ERR UNRECOGNIZED CMD'' @ newline) s"
  using assms by (simp add: handleLine_def Let_def Split_nonempty)

section \<open>The test sessions, evaluated\<close>

lemmas drops_eval =
  handleLine_def handlerFor_def handleRegister_def handleList_def handleMetric_def
  handleMetrics_def handleRun_def handleDone_def handleError_def unregister_def
  Fprintf_def Fprintln_def NewServer_def newline_def rangeKeys_def ex_runtime_def Let_def

lemma ex_registered_eq:
  "ex_registered =
     \<lparr>maxMetricPoints = 4,
      stations = [''water'' \<mapsto>
        \<lparr>metrics = Map.empty, st_c = 0, tipe = ''source'', runs = Map.empty\<rparr>],
      conns = (\<lambda>_. \<lparr>name = [], sent = []\<rparr>)(0 := \<lparr>name = ''water'', sent = []\<rparr>)\<rparr>"
  by (simp add: ex_registered_def handleRegister_def NewServer_def Let_def)


lemma ex_session_state:
  "fst (run_events [Line 0 ex_runtime ''REGISTER water source'',
                    Line 1 ex_runtime ''RUN water test 123123123 1''] (NewServer 4, {}))
   = \<lparr>maxMetricPoints = 4,
      stations = [''water'' \<mapsto>
        \<lparr>metrics = Map.empty, st_c = 0, tipe = ''source'',
         runs = [''123123123'' \<mapsto> \<lparr>client = 1, run_name = ''water''\<rparr>]\<rparr>],
      conns = (\<lambda>_. \<lparr>name = [], sent = []\<rparr>)
        (0 := \<lparr>name = ''water'', sent = ''ACK'' @ newline @ ''RUN test 123123123 1'' @ newline\<rparr>,
         1 := \<lparr>name = [], sent = ''ACK'' @ newline\<rparr>)\<rparr>"
  by (simp add: drops_eval)

lemma ex_session_eq:
  "ex_session =
     \<lparr>maxMetricPoints = 4,
      stations = [''water'' \<mapsto>
        \<lparr>metrics = Map.empty, st_c = 0, tipe = ''source'',
         runs = [''123123123'' \<mapsto> \<lparr>client = 1, run_name = ''water''\<rparr>]\<rparr>],
      conns = (\<lambda>_. \<lparr>name = [], sent = []\<rparr>)
        (0 := \<lparr>name = ''water'', sent = ''ACK'' @ newline @ ''RUN test 123123123 1'' @ newline\<rparr>,
         1 := \<lparr>name = [], sent = ''ACK'' @ newline\<rparr>)\<rparr>"
  unfolding ex_session_def by (rule ex_session_state)

lemma ex_metrics_water:
  "stations ex_metrics ''water''
     = Some \<lparr>metrics = [''level'' \<mapsto> [\<lparr>ts = 0, mvalue = 2\<rparr>, \<lparr>ts = 0, mvalue = 3\<rparr>,
                                      \<lparr>ts = 0, mvalue = 4\<rparr>, \<lparr>ts = 0, mvalue = 5\<rparr>]],
             st_c = 0, tipe = ''source'', runs = Map.empty\<rparr>"
  by (simp add: ex_metrics_def drops_eval)

section \<open>Registration\<close>

subsection \<open>Who owns a registered name\<close>

lemma owner_inv_NewServer: "owner_inv (NewServer mx) {}"
  by (simp add: owner_inv_def NewServer_def)

lemma owner_inv_Fprintf: "owner_inv s gone \<Longrightarrow> owner_inv (Fprintf w str s) gone"
  by (simp add: owner_inv_def)

lemma owner_inv_handleRegister:
  "owner_inv s gone \<Longrightarrow> owner_inv (snd (handleRegister conn args s)) gone"
  unfolding owner_inv_def handleRegister_def Let_def
  by (auto split: if_splits)

lemma owner_inv_handleMetric:
  "owner_inv s gone \<Longrightarrow> owner_inv (snd (handleMetric rt conn args s)) gone"
  unfolding owner_inv_def handleMetric_def Let_def
  by (auto split: if_splits option.splits)

lemma owner_inv_handleRun:
  "owner_inv s gone \<Longrightarrow> owner_inv (snd (handleRun conn args s)) gone"
  unfolding owner_inv_def handleRun_def Let_def
  by (auto split: if_splits option.splits)

lemma owner_inv_handleDone:
  "owner_inv s gone \<Longrightarrow> owner_inv (snd (handleDone conn args s)) gone"
  unfolding owner_inv_def handleDone_def Let_def
  by (auto split: if_splits option.splits)

lemma owner_inv_handleError:
  "owner_inv s gone \<Longrightarrow> owner_inv (snd (handleError conn args s)) gone"
  unfolding owner_inv_def handleError_def Let_def
  by (auto split: if_splits option.splits)

lemma owner_inv_handleLine:
  "owner_inv s gone \<Longrightarrow> owner_inv (handleLine rt conn scan s) gone"
  by (rule handleLine_preserves [where P = "\<lambda>s. owner_inv s gone"])
    (simp_all add: owner_inv_Fprintf owner_inv_handleRegister owner_inv_handleMetric
      owner_inv_handleRun owner_inv_handleDone owner_inv_handleError)

lemma owner_inv_unregister:
  assumes "owner_inv s gone" and "conn \<notin> gone"
  shows "owner_inv (unregister conn s) (insert conn gone)"
  using assms unfolding owner_inv_def unregister_def
  by (auto split: if_splits) (metis option.inject)

lemma owner_inv_step:
  assumes "owner_inv s gone" and "step ev (s, gone) = (s', gone')"
  shows "owner_inv s' gone'"
  using assms
  by (cases ev) (auto simp: owner_inv_handleLine owner_inv_unregister split: if_splits)

lemma owner_inv_run_events:
  assumes "owner_inv s gone" and "run_events evs (s, gone) = (s', gone')"
  shows "owner_inv s' gone'"
  using assms
proof (induction evs arbitrary: s gone)
  case Nil
  then show ?case by simp
next
  case (Cons ev evs)
  obtain s1 g1 where st: "step ev (s, gone) = (s1, g1)"
    by (cases "step ev (s, gone)")
  show ?case
    using Cons.IH [OF owner_inv_step [OF Cons.prems(1) st]] Cons.prems(2) st by simp
qed

lemma gone_step: "step ev (s, gone) = (s', gone') \<Longrightarrow> gone \<subseteq> gone'"
  by (cases ev) (auto split: if_splits)

lemma gone_run_events: "run_events evs (s, gone) = (s', gone') \<Longrightarrow> gone \<subseteq> gone'"
proof (induction evs arbitrary: s gone)
  case Nil
  then show ?case by simp
next
  case (Cons ev evs)
  obtain s1 g1 where st: "step ev (s, gone) = (s1, g1)"
    by (cases "step ev (s, gone)")
  have "g1 \<subseteq> gone'"
    using Cons.IH [of s1 g1] Cons.prems st by simp
  then show ?case
    using gone_step [OF st] by blast
qed

lemma owned_by_Fprintf: "owned_by s nm conn \<Longrightarrow> owned_by (Fprintf w str s) nm conn"
  by (simp add: owned_by_def)

lemma owned_by_handleRegister:
  "owned_by s nm conn \<Longrightarrow> owned_by (snd (handleRegister k args s)) nm conn"
  unfolding owned_by_def handleRegister_def Let_def
  by (auto split: if_splits)

lemma owned_by_handleMetric:
  "owned_by s nm conn \<Longrightarrow> owned_by (snd (handleMetric rt k args s)) nm conn"
  unfolding owned_by_def handleMetric_def Let_def
  by (auto split: if_splits option.splits)

lemma owned_by_handleRun:
  "owned_by s nm conn \<Longrightarrow> owned_by (snd (handleRun k args s)) nm conn"
  unfolding owned_by_def handleRun_def Let_def
  by (auto split: if_splits option.splits)

lemma owned_by_handleDone:
  "owned_by s nm conn \<Longrightarrow> owned_by (snd (handleDone k args s)) nm conn"
  unfolding owned_by_def handleDone_def Let_def
  by (auto split: if_splits option.splits)

lemma owned_by_handleError:
  "owned_by s nm conn \<Longrightarrow> owned_by (snd (handleError k args s)) nm conn"
  unfolding owned_by_def handleError_def Let_def
  by (auto split: if_splits option.splits)

lemma owned_by_handleLine:
  "owned_by s nm conn \<Longrightarrow> owned_by (handleLine rt k scan s) nm conn"
  by (rule handleLine_preserves [where P = "\<lambda>s. owned_by s nm conn"])
    (simp_all add: owned_by_Fprintf owned_by_handleRegister owned_by_handleMetric
      owned_by_handleRun owned_by_handleDone owned_by_handleError)

lemma owned_by_unregister:
  assumes "owned_by s nm conn" and "owner_inv s gone" and "k \<notin> gone" and "k \<noteq> conn"
  shows "owned_by (unregister k s) nm conn"
  using assms unfolding owned_by_def owner_inv_def unregister_def
  by (auto split: if_splits)

lemma owned_by_step:
  assumes "owned_by s nm conn" and "owner_inv s gone"
    and "step ev (s, gone) = (s', gone')" and "conn \<notin> gone'"
  shows "owned_by s' nm conn"
  using assms
  by (cases ev) (auto simp: owned_by_handleLine owned_by_unregister split: if_splits)

lemma owned_by_run_events:
  assumes "owned_by s nm conn" and "owner_inv s gone"
    and "run_events evs (s, gone) = (s', gone')" and "conn \<notin> gone'"
  shows "owned_by s' nm conn"
  using assms
proof (induction evs arbitrary: s gone)
  case Nil
  then show ?case by simp
next
  case (Cons ev evs)
  obtain s1 g1 where st: "step ev (s, gone) = (s1, g1)"
    by (cases "step ev (s, gone)")
  have r: "run_events evs (s1, g1) = (s', gone')"
    using Cons.prems(3) st by simp
  have "conn \<notin> g1"
    using gone_run_events [OF r] Cons.prems(4) by blast
  then have "owned_by s1 nm conn"
    using owned_by_step [OF Cons.prems(1,2) st] by simp
  then show ?case
    using Cons.IH [OF _ owner_inv_step [OF Cons.prems(2) st] r Cons.prems(4)] by simp
qed

lemma handleRegister_success:
  assumes "handleRegister conn [nm, tp] s = (Inr resp, s1)"
  shows "stations s nm = None" and "resp = ''ACK''"
    and "s1 = s\<lparr>stations := (stations s)(nm \<mapsto>
                 \<lparr>metrics = Map.empty, st_c = conn, tipe = tp, runs = Map.empty\<rparr>),
               conns := (conns s)(conn := (conns s conn)\<lparr>name := nm\<rparr>)\<rparr>"
  using assms by (auto simp: handleRegister_def Let_def split: if_splits)

subsection \<open>Registering again\<close>

text \<open>
  C1, as the claim states it, fails: after connection 0 has registered as \<^verbatim>\<open>water\<close>, its
  REGISTER under the unused name \<^verbatim>\<open>fire\<close> is answered ACK and replaces the tag.
\<close>

theorem register_other_name_counterexample:
  "handleRegister 0 [''water'', ''source''] (NewServer 4) = (Inr ''ACK'', ex_registered)
   \<and> name (conns ex_registered 0) = ''water''
   \<and> fst (handleRegister 0 [''fire'', ''heater''] ex_registered) = Inr ''ACK''
   \<and> name (conns (snd (handleRegister 0 [''fire'', ''heater''] ex_registered)) 0) = ''fire''
   \<and> sent (conns (scanLoop 0 [(ex_runtime, ''REGISTER water source''),
                                (ex_runtime, ''REGISTER fire heater'')] (NewServer 4)) 0)
       = ''ACK'' @ newline @ ''ACK'' @ newline
   \<and> name (conns (scanLoop 0 [(ex_runtime, ''REGISTER water source''),
                                (ex_runtime, ''REGISTER fire heater'')] (NewServer 4)) 0)
       = ''fire''"
  by (simp add: ex_registered_def drops_eval)

text \<open>
  C1, amended. Let a REGISTER of \<open>nm\<close> succeed on a connection, in a state the server
  can reach. Then, whatever happens in between, as long as that connection's loop has
  not ended, a later REGISTER of that same name on it fails (the name is already
  registered), the dispatcher answers \<^verbatim>\<open>ERR\<close>, and the tag and the rest of the state
  stay as they are. A REGISTER of a name that is not in the registry is not refused on
  account of the earlier registration: it succeeds and replaces the tag.
\<close>

theorem repeated_register_rejected:
  assumes "run_events evs1 (NewServer mx, {}) = (s, gone)"
    and "handleRegister conn [nm, tp] s = (Inr resp, s1)"
    and "run_events evs2 (s1, gone) = (s2, gone2)"
    and "conn \<notin> gone2"
  shows "handleRegister conn [nm, tp'] s2 = (Inl (AlreadyRegistered nm), s2)
    \<and> (Split scan CHR '' '' = [''REGISTER'', nm, tp'] \<longrightarrow>
          handleLine rt conn scan s2 = Fprintf conn (''ERR'' @ newline) s2)
    \<and> (stations s2 nm' = None \<longrightarrow>
          fst (handleRegister conn [nm', tp'] s2) = Inr ''ACK''
        \<and> name (conns (snd (handleRegister conn [nm', tp'] s2)) conn) = nm')"
proof -
  have inv: "owner_inv s gone"
    by (rule owner_inv_run_events [OF owner_inv_NewServer assms(1)])
  have inv1: "owner_inv s1 gone"
    using owner_inv_handleRegister [OF inv, of conn "[nm, tp]"] assms(2) by simp
  have "owned_by s1 nm conn"
    using handleRegister_success(3) [OF assms(2)] by (simp add: owned_by_def)
  then have "owned_by s2 nm conn"
    by (rule owned_by_run_events [OF _ inv1 assms(3,4)])
  then have present: "stations s2 nm \<noteq> None"
    by (auto simp: owned_by_def)
  then have rej: "handleRegister conn [nm, tp'] s2 = (Inl (AlreadyRegistered nm), s2)"
    by (simp add: handleRegister_def Let_def)
  have line: "handleLine rt conn scan s2 = Fprintf conn (''ERR'' @ newline) s2"
    if sp: "Split scan CHR '' '' = [''REGISTER'', nm, tp']"
  proof (rule handleLine_error)
    show "handlerFor rt (Split scan CHR '' '' ! 0) = Some handleRegister"
      by (simp add: sp handlerFor_def)
    show "handleRegister conn (drop 1 (Split scan CHR '' '')) s2 = (Inl (AlreadyRegistered nm), s2)"
      by (simp add: sp rej)
  qed
  have other: "fst (handleRegister conn [nm', tp'] s2) = Inr ''ACK''
        \<and> name (conns (snd (handleRegister conn [nm', tp'] s2)) conn) = nm'"
    if "stations s2 nm' = None"
    using that by (simp add: handleRegister_def Let_def)
  from rej line other show ?thesis
    by blast
qed

theorem repeated_register_rejected_witness:
  "handleRegister 0 [''water'', ''source''] (NewServer 4) = (Inr ''ACK'', ex_registered)
   \<and> 0 \<notin> snd (run_events [Line 1 ex_runtime ''LIST''] (ex_registered, {}))
   \<and> handleRegister 0 [''water'', ''barrel'']
        (fst (run_events [Line 1 ex_runtime ''LIST''] (ex_registered, {})))
       = (Inl (AlreadyRegistered ''water''),
          fst (run_events [Line 1 ex_runtime ''LIST''] (ex_registered, {})))
   \<and> handleLine ex_runtime 0 ''REGISTER water barrel''
        (fst (run_events [Line 1 ex_runtime ''LIST''] (ex_registered, {})))
       = Fprintf 0 (''ERR'' @ newline)
          (fst (run_events [Line 1 ex_runtime ''LIST''] (ex_registered, {})))
   \<and> stations (fst (run_events [Line 1 ex_runtime ''LIST''] (ex_registered, {}))) ''fire'' = None
   \<and> fst (handleRegister 0 [''fire'', ''barrel'']
        (fst (run_events [Line 1 ex_runtime ''LIST''] (ex_registered, {})))) = Inr ''ACK''
   \<and> name (conns (snd (handleRegister 0 [''fire'', ''barrel'']
        (fst (run_events [Line 1 ex_runtime ''LIST''] (ex_registered, {}))))) 0) = ''fire''"
proof -
  let ?sys = "run_events [Line 1 ex_runtime ''LIST''] (ex_registered, {})"
  have s0: "run_events [] (NewServer 4 :: int Server, {}) = (NewServer 4, {})"
    by simp
  have r: "handleRegister 0 [''water'', ''source''] (NewServer 4) = (Inr ''ACK'', ex_registered)"
    by (simp add: ex_registered_def handleRegister_def NewServer_def Let_def)
  have e: "?sys = (fst ?sys, snd ?sys)"
    by simp
  have g: "0 \<notin> snd ?sys"
    by simp
  have sp: "Split ''REGISTER water barrel'' CHR '' '' = [''REGISTER'', ''water'', ''barrel'']"
    by simp
  have f: "stations (fst ?sys) ''fire'' = None"
    by (simp add: handleLine_def handlerFor_def handleList_def Fprintln_def
        ex_registered_eq)
  from repeated_register_rejected
      [OF s0 r e g, of "''barrel''" "''REGISTER water barrel''" _ "''fire''"]
    r g sp f
  show ?thesis
    by blast
qed

subsection \<open>The empty name\<close>

text \<open>
  The empty tag doubles as the mark of a connection that has not registered. REGISTER
  does not refuse the empty name: the station is stored, the connection still counts
  as not registered, and the clean-up at its end leaves that station in the registry.
\<close>

lemma empty_name_station_stays:
  assumes "stations s [] = None" and "name (conns s conn) = []"
  shows "fst (handleRegister conn [[], tp] s) = Inr ''ACK''"
    and "name (conns (snd (handleRegister conn [[], tp] s)) conn) = []"
    and "stations (snd (handleRegister conn [[], tp] s)) [] \<noteq> None"
    and "unregister conn (snd (handleRegister conn [[], tp] s))
      = snd (handleRegister conn [[], tp] s)"
  using assms by (simp_all add: handleRegister_def unregister_def Let_def)

section \<open>The metric store\<close>

subsection \<open>The cap on stored points\<close>

lemma capped_NewServer: "capped (NewServer mx)"
  by (simp add: capped_def NewServer_def)

lemma capped_Fprintf: "capped s \<Longrightarrow> capped (Fprintf w str s)"
  by (simp add: capped_def)

lemma capped_handleRegister: "capped s \<Longrightarrow> capped (snd (handleRegister conn args s))"
  unfolding capped_def handleRegister_def Let_def
  by (auto split: if_splits)

lemma kept_length:
  assumes "int (length old) \<le> mx" and "0 \<le> mx"
  shows "int (length (if int (length (old @ [p])) > mx then drop 1 (old @ [p]) else old @ [p]))
    \<le> mx"
  using assms by auto

lemma capped_handleMetric:
  assumes "capped s" and "0 \<le> maxMetricPoints s"
  shows "capped (snd (handleMetric rt conn args s))"
proof (cases "fst (handleMetric rt conn args s)")
  case (Inl e)
  then have "snd (handleMetric rt conn args s) = s"
    using handleMetric_error [of rt conn args s e "snd (handleMetric rt conn args s)"]
    by (metis prod.collapse)
  then show ?thesis
    using assms(1) by simp
next
  case (Inr resp)
  let ?nm = "name (conns s conn)"
  from Inr obtain x st where len: "length args = 2"
    and pf: "ParseFloat rt (args ! 1) = Some x" and st: "stations s ?nm = Some st"
    by (auto simp: handleMetric_def Let_def split: if_splits option.splits)
  let ?old = "case metrics st (args ! 0) of None \<Rightarrow> [] | Some ms \<Rightarrow> ms"
  let ?p = "\<lparr>ts = Now rt, mvalue = x\<rparr>"
  let ?kept = "if int (length (?old @ [?p])) > maxMetricPoints s
               then drop 1 (?old @ [?p]) else ?old @ [?p]"
  have eq: "snd (handleMetric rt conn args s)
      = s\<lparr>stations := (stations s)(?nm \<mapsto> st\<lparr>metrics := (metrics st)(args ! 0 \<mapsto> ?kept)\<rparr>)\<rparr>"
    using Inr len pf st
    by (auto simp: handleMetric_def Let_def split: if_splits)
  have "int (length ?old) \<le> maxMetricPoints s"
    using assms st by (auto simp: capped_def split: option.splits)
  then have k: "int (length ?kept) \<le> maxMetricPoints s"
    using assms(2) by (rule kept_length)
  show ?thesis
    unfolding eq capped_def
  proof (intro allI impI)
    fix nm' st' m' pts
    assume a: "stations (s\<lparr>stations := (stations s)(?nm \<mapsto>
          st\<lparr>metrics := (metrics st)(args ! 0 \<mapsto> ?kept)\<rparr>)\<rparr>) nm' = Some st'
        \<and> metrics st' m' = Some pts"
    show "int (length pts) \<le> maxMetricPoints (s\<lparr>stations := (stations s)(?nm \<mapsto>
          st\<lparr>metrics := (metrics st)(args ! 0 \<mapsto> ?kept)\<rparr>)\<rparr>)"
    proof (cases "nm' = ?nm")
      case False
      then show ?thesis
        using a assms(1) by (auto simp: capped_def)
    next
      case True
      show ?thesis
      proof (cases "m' = args ! 0")
        case False
        then show ?thesis
          using a True st assms(1) by (auto simp: capped_def)
      next
        case m: True
        have "pts = ?kept"
          using a True m by auto
        then show ?thesis
          using k by simp
      qed
    qed
  qed
qed

lemma capped_handleRun: "capped s \<Longrightarrow> capped (snd (handleRun conn args s))"
  unfolding capped_def handleRun_def Let_def
  by (auto split: if_splits option.splits)

lemma capped_handleDone: "capped s \<Longrightarrow> capped (snd (handleDone conn args s))"
  unfolding capped_def handleDone_def Let_def
  by (auto split: if_splits option.splits)

lemma capped_handleError: "capped s \<Longrightarrow> capped (snd (handleError conn args s))"
  unfolding capped_def handleError_def Let_def
  by (auto split: if_splits option.splits)

lemma capped_unregister: "capped s \<Longrightarrow> capped (unregister conn s)"
  unfolding capped_def unregister_def
  by (auto split: if_splits)

text \<open>The cap itself is never written after \<^verbatim>\<open>NewServer\<close>.\<close>

lemma cap_handleRegister: "maxMetricPoints (snd (handleRegister conn args s)) = maxMetricPoints s"
  by (simp add: handleRegister_def Let_def)

lemma cap_handleMetric: "maxMetricPoints (snd (handleMetric rt conn args s)) = maxMetricPoints s"
  by (simp add: handleMetric_def Let_def split: option.splits)

lemma cap_handleRun: "maxMetricPoints (snd (handleRun conn args s)) = maxMetricPoints s"
  by (simp add: handleRun_def Let_def split: option.splits)

lemma cap_handleDone: "maxMetricPoints (snd (handleDone conn args s)) = maxMetricPoints s"
  by (simp add: handleDone_def Let_def split: option.splits)

lemma cap_handleError: "maxMetricPoints (snd (handleError conn args s)) = maxMetricPoints s"
  by (simp add: handleError_def Let_def split: option.splits)

lemma capped_handleLine:
  assumes "capped s \<and> 0 \<le> maxMetricPoints s"
  shows "capped (handleLine rt conn scan s) \<and> 0 \<le> maxMetricPoints (handleLine rt conn scan s)"
  by (rule handleLine_preserves [where P = "\<lambda>s. capped s \<and> 0 \<le> maxMetricPoints s"])
    (simp_all add: assms capped_Fprintf capped_handleRegister capped_handleMetric
      capped_handleRun capped_handleDone capped_handleError cap_handleRegister
      cap_handleMetric cap_handleRun cap_handleDone cap_handleError)

lemma capped_step:
  assumes "capped (fst sys) \<and> 0 \<le> maxMetricPoints (fst sys)"
  shows "capped (fst (step ev sys)) \<and> 0 \<le> maxMetricPoints (fst (step ev sys))"
proof (cases sys)
  case (Pair s gone)
  show ?thesis
  proof (cases ev)
    case (Line conn rt scan)
    then show ?thesis
      using assms Pair capped_handleLine [of s rt conn scan] by simp
  next
    case (Closed conn)
    have "maxMetricPoints (unregister conn s) = maxMetricPoints s"
      by (simp add: unregister_def)
    then show ?thesis
      using assms Pair Closed capped_unregister [of s conn] by simp
  qed
qed

lemma capped_run_events:
  assumes "capped (fst sys) \<and> 0 \<le> maxMetricPoints (fst sys)"
  shows "capped (fst (run_events evs sys))"
  using assms
proof (induction evs arbitrary: sys)
  case Nil
  then show ?case by simp
next
  case (Cons ev evs)
  show ?case
    using Cons.IH [OF capped_step [OF Cons.prems]] by simp
qed

lemma cap_handleLine: "maxMetricPoints (handleLine rt conn scan s) = maxMetricPoints s"
  by (rule handleLine_preserves [where P = "\<lambda>s'. maxMetricPoints s' = maxMetricPoints s"])
    (simp_all add: cap_handleRegister cap_handleMetric cap_handleRun cap_handleDone
      cap_handleError)

lemma cap_step: "maxMetricPoints (fst (step ev sys)) = maxMetricPoints (fst sys)"
  by (cases ev; cases sys) (simp_all add: cap_handleLine unregister_def)

lemma cap_run_events: "maxMetricPoints (fst (run_events evs sys)) = maxMetricPoints (fst sys)"
  by (induction evs arbitrary: sys) (simp_all add: cap_step)

subsection \<open>Recording a point\<close>

lemma handleMetric_registered:
  assumes "name (conns s conn) = nm" and "nm \<noteq> []" and "stations s nm = Some st"
    and "ParseFloat rt v = Some x"
  shows "handleMetric rt conn [m, v] s =
    (Inr ''ACK'',
     s\<lparr>stations := (stations s)(nm \<mapsto> st\<lparr>metrics := (metrics st)(m \<mapsto>
        (if int (length (case metrics st m of None \<Rightarrow> [] | Some ms \<Rightarrow> ms)) + 1
              > maxMetricPoints s
         then drop 1 ((case metrics st m of None \<Rightarrow> [] | Some ms \<Rightarrow> ms)
                        @ [\<lparr>ts = Now rt, mvalue = x\<rparr>])
         else (case metrics st m of None \<Rightarrow> [] | Some ms \<Rightarrow> ms)
                @ [\<lparr>ts = Now rt, mvalue = x\<rparr>]))\<rparr>)\<rparr>)"
  using assms by (simp add: handleMetric_def Let_def)

lemma record_step:
  assumes "name (conns s conn) = nm" and "nm \<noteq> []" and "stations s nm = Some st"
    and "ParseFloat rt v = Some x" and "metrics st m = old" and "maxMetricPoints s = mx"
  shows "name (conns (snd (handleMetric rt conn [m, v] s)) conn) = nm"
    and "maxMetricPoints (snd (handleMetric rt conn [m, v] s)) = mx"
    and "stations (snd (handleMetric rt conn [m, v] s)) nm =
      Some (st\<lparr>metrics := (metrics st)(m \<mapsto>
        (if int (length (case old of None \<Rightarrow> [] | Some ms \<Rightarrow> ms)) + 1 > mx
         then drop 1 ((case old of None \<Rightarrow> [] | Some ms \<Rightarrow> ms) @ [\<lparr>ts = Now rt, mvalue = x\<rparr>])
         else (case old of None \<Rightarrow> [] | Some ms \<Rightarrow> ms) @ [\<lparr>ts = Now rt, mvalue = x\<rparr>]))\<rparr>)"
  using assms by (simp_all add: handleMetric_registered [OF assms(1-4)])

lemma five_points_keep_four:
  assumes n: "name (conns s conn) = nm" and ne: "nm \<noteq> []"
    and st: "stations s nm = Some st" and fresh: "metrics st m = None"
    and cap: "maxMetricPoints s = 4"
    and p1: "ParseFloat rt1 v1 = Some x1" and p2: "ParseFloat rt2 v2 = Some x2"
    and p3: "ParseFloat rt3 v3 = Some x3" and p4: "ParseFloat rt4 v4 = Some x4"
    and p5: "ParseFloat rt5 v5 = Some x5"
  shows "\<exists>st'. stations (snd (handleMetric rt5 conn [m, v5]
            (snd (handleMetric rt4 conn [m, v4]
              (snd (handleMetric rt3 conn [m, v3]
                (snd (handleMetric rt2 conn [m, v2]
                  (snd (handleMetric rt1 conn [m, v1] s)))))))))) nm = Some st'
      \<and> metrics st' m = Some [\<lparr>ts = Now rt2, mvalue = x2\<rparr>, \<lparr>ts = Now rt3, mvalue = x3\<rparr>,
                               \<lparr>ts = Now rt4, mvalue = x4\<rparr>, \<lparr>ts = Now rt5, mvalue = x5\<rparr>]"
proof -
  let ?s1 = "snd (handleMetric rt1 conn [m, v1] s)"
  let ?s2 = "snd (handleMetric rt2 conn [m, v2] ?s1)"
  let ?s3 = "snd (handleMetric rt3 conn [m, v3] ?s2)"
  let ?s4 = "snd (handleMetric rt4 conn [m, v4] ?s3)"
  let ?s5 = "snd (handleMetric rt5 conn [m, v5] ?s4)"
  let ?p1 = "\<lparr>ts = Now rt1, mvalue = x1\<rparr>"
  let ?p2 = "\<lparr>ts = Now rt2, mvalue = x2\<rparr>"
  let ?p3 = "\<lparr>ts = Now rt3, mvalue = x3\<rparr>"
  let ?p4 = "\<lparr>ts = Now rt4, mvalue = x4\<rparr>"
  let ?p5 = "\<lparr>ts = Now rt5, mvalue = x5\<rparr>"
  note a1 = record_step [OF n ne st p1 fresh cap]
  have s1: "stations ?s1 nm = Some (st\<lparr>metrics := (metrics st)(m \<mapsto> [?p1])\<rparr>)"
    using a1(3) by simp
  have m1: "metrics (st\<lparr>metrics := (metrics st)(m \<mapsto> [?p1])\<rparr>) m = Some [?p1]"
    by simp
  note a2 = record_step [OF a1(1) ne s1 p2 m1 a1(2)]
  have s2: "stations ?s2 nm = Some (st\<lparr>metrics := (metrics st)(m \<mapsto> [?p1, ?p2])\<rparr>)"
    using a2(3) by simp
  have m2: "metrics (st\<lparr>metrics := (metrics st)(m \<mapsto> [?p1, ?p2])\<rparr>) m = Some [?p1, ?p2]"
    by simp
  note a3 = record_step [OF a2(1) ne s2 p3 m2 a2(2)]
  have s3: "stations ?s3 nm = Some (st\<lparr>metrics := (metrics st)(m \<mapsto> [?p1, ?p2, ?p3])\<rparr>)"
    using a3(3) by simp
  have m3: "metrics (st\<lparr>metrics := (metrics st)(m \<mapsto> [?p1, ?p2, ?p3])\<rparr>) m
      = Some [?p1, ?p2, ?p3]"
    by simp
  note a4 = record_step [OF a3(1) ne s3 p4 m3 a3(2)]
  have s4: "stations ?s4 nm
      = Some (st\<lparr>metrics := (metrics st)(m \<mapsto> [?p1, ?p2, ?p3, ?p4])\<rparr>)"
    using a4(3) by simp
  have m4: "metrics (st\<lparr>metrics := (metrics st)(m \<mapsto> [?p1, ?p2, ?p3, ?p4])\<rparr>) m
      = Some [?p1, ?p2, ?p3, ?p4]"
    by simp
  note a5 = record_step [OF a4(1) ne s4 p5 m4 a4(2)]
  have s5: "stations ?s5 nm
      = Some (st\<lparr>metrics := (metrics st)(m \<mapsto> [?p2, ?p3, ?p4, ?p5])\<rparr>)"
    using a5(3) by simp
  show ?thesis
    unfolding s5 by simp
qed

text \<open>
  C2, as the claim states it, fails for a negative cap, which \<^verbatim>\<open>NewServer\<close> accepts
  (the \<^verbatim>\<open>maxMetrics\<close> flag is an \<^verbatim>\<open>int\<close>): with the cap at -1, the first point
  reported is appended and dropped again, and the stored series, of length 0, is longer
  than the cap.
\<close>

theorem negative_cap_counterexample:
  "stations (fst (run_events [Line 0 ex_runtime ''REGISTER water source'',
                              Line 0 ex_runtime ''METRIC level 1''] (NewServer (- 1), {})))
       ''water''
     = Some \<lparr>metrics = [''level'' \<mapsto> []], st_c = 0, tipe = ''source'', runs = Map.empty\<rparr>
   \<and> maxMetricPoints (fst (run_events [Line 0 ex_runtime ''REGISTER water source'',
                              Line 0 ex_runtime ''METRIC level 1''] (NewServer (- 1), {}))) = - 1
   \<and> \<not> int (length ([] :: int metric list)) \<le> - 1"
  by (simp add: drops_eval)

text \<open>
  C2, amended. When the cap is not negative, in every state the server can reach, no
  stored series of any station and metric is longer than the cap. A METRIC from a
  registered connection appends the point and, when the series then is longer than
  the cap, drops its first, oldest point and nothing else. In particular, with a cap
  of 4, five points reported for a metric not seen before leave exactly the last four,
  in the order reported.
\<close>

theorem metric_series_capped:
  "(0 \<le> mx \<longrightarrow>
      (\<forall>nm st m pts.
          stations (fst (run_events evs (NewServer mx, {}))) nm = Some st
            \<and> metrics st m = Some pts \<longrightarrow> int (length pts) \<le> mx))
   \<and> (\<forall>st x old. name (conns s conn) \<noteq> [] \<and> stations s (name (conns s conn)) = Some st
          \<and> ParseFloat rt v = Some x
          \<and> old = (case metrics st m of None \<Rightarrow> [] | Some ms \<Rightarrow> ms) \<longrightarrow>
        handleMetric rt conn [m, v] s =
          (Inr ''ACK'',
           s\<lparr>stations := (stations s)(name (conns s conn) \<mapsto> st\<lparr>metrics := (metrics st)(m \<mapsto>
              (if int (length old) + 1 > maxMetricPoints s
               then drop 1 (old @ [\<lparr>ts = Now rt, mvalue = x\<rparr>])
               else old @ [\<lparr>ts = Now rt, mvalue = x\<rparr>]))\<rparr>)\<rparr>))
   \<and> (\<forall>st x1 x2 x3 x4 x5.
          name (conns s conn) \<noteq> [] \<and> stations s (name (conns s conn)) = Some st
          \<and> metrics st m = None \<and> maxMetricPoints s = 4
          \<and> ParseFloat rt1 v1 = Some x1 \<and> ParseFloat rt2 v2 = Some x2
          \<and> ParseFloat rt3 v3 = Some x3 \<and> ParseFloat rt4 v4 = Some x4
          \<and> ParseFloat rt5 v5 = Some x5 \<longrightarrow>
        (\<exists>st'. stations (snd (handleMetric rt5 conn [m, v5]
              (snd (handleMetric rt4 conn [m, v4]
                (snd (handleMetric rt3 conn [m, v3]
                  (snd (handleMetric rt2 conn [m, v2]
                    (snd (handleMetric rt1 conn [m, v1] s)))))))))) (name (conns s conn))
              = Some st'
          \<and> metrics st' m
              = Some [\<lparr>ts = Now rt2, mvalue = x2\<rparr>, \<lparr>ts = Now rt3, mvalue = x3\<rparr>,
                      \<lparr>ts = Now rt4, mvalue = x4\<rparr>, \<lparr>ts = Now rt5, mvalue = x5\<rparr>]))"
proof (intro conjI impI allI)
  fix nm st m' pts
  let ?s = "fst (run_events evs (NewServer mx, {}))"
  assume mx: "0 \<le> mx" and a: "stations ?s nm = Some st \<and> metrics st m' = Some pts"
  have c0: "capped (fst (NewServer mx, {})) \<and> 0 \<le> maxMetricPoints (fst (NewServer mx, {}))"
    using mx by (simp add: capped_NewServer) (simp add: NewServer_def)
  have "maxMetricPoints ?s = mx"
    by (simp add: cap_run_events) (simp add: NewServer_def)
  moreover have "capped ?s"
    by (rule capped_run_events [OF c0])
  ultimately show "int (length pts) \<le> mx"
    using a by (auto simp: capped_def)
next
  fix st x old
  assume "name (conns s conn) \<noteq> [] \<and> stations s (name (conns s conn)) = Some st
          \<and> ParseFloat rt v = Some x
          \<and> old = (case metrics st m of None \<Rightarrow> [] | Some ms \<Rightarrow> ms)"
  then show "handleMetric rt conn [m, v] s =
          (Inr ''ACK'',
           s\<lparr>stations := (stations s)(name (conns s conn) \<mapsto> st\<lparr>metrics := (metrics st)(m \<mapsto>
              (if int (length old) + 1 > maxMetricPoints s
               then drop 1 (old @ [\<lparr>ts = Now rt, mvalue = x\<rparr>])
               else old @ [\<lparr>ts = Now rt, mvalue = x\<rparr>]))\<rparr>)\<rparr>)"
    using handleMetric_registered [of s conn "name (conns s conn)" st rt v x m] by simp
next
  fix st x1 x2 x3 x4 x5
  assume "name (conns s conn) \<noteq> [] \<and> stations s (name (conns s conn)) = Some st
          \<and> metrics st m = None \<and> maxMetricPoints s = 4
          \<and> ParseFloat rt1 v1 = Some x1 \<and> ParseFloat rt2 v2 = Some x2
          \<and> ParseFloat rt3 v3 = Some x3 \<and> ParseFloat rt4 v4 = Some x4
          \<and> ParseFloat rt5 v5 = Some x5"
  then show "\<exists>st'. stations (snd (handleMetric rt5 conn [m, v5]
              (snd (handleMetric rt4 conn [m, v4]
                (snd (handleMetric rt3 conn [m, v3]
                  (snd (handleMetric rt2 conn [m, v2]
                    (snd (handleMetric rt1 conn [m, v1] s)))))))))) (name (conns s conn))
              = Some st'
          \<and> metrics st' m
              = Some [\<lparr>ts = Now rt2, mvalue = x2\<rparr>, \<lparr>ts = Now rt3, mvalue = x3\<rparr>,
                      \<lparr>ts = Now rt4, mvalue = x4\<rparr>, \<lparr>ts = Now rt5, mvalue = x5\<rparr>]"
    using five_points_keep_four [of s conn "name (conns s conn)" st m rt1 v1 x1 rt2 v2 x2
        rt3 v3 x3 rt4 v4 x4 rt5 v5 x5]
    by blast
qed

theorem metric_series_capped_witness:
  "(0::int) \<le> 4
   \<and> stations ex_metrics ''water''
       = Some \<lparr>metrics = [''level'' \<mapsto> [\<lparr>ts = 0, mvalue = 2\<rparr>, \<lparr>ts = 0, mvalue = 3\<rparr>,
                                        \<lparr>ts = 0, mvalue = 4\<rparr>, \<lparr>ts = 0, mvalue = 5\<rparr>]],
               st_c = 0, tipe = ''source'', runs = Map.empty\<rparr>
   \<and> int (length [\<lparr>ts = 0, mvalue = 2\<rparr>, \<lparr>ts = 0, mvalue = 3\<rparr>,
                   \<lparr>ts = 0, mvalue = 4\<rparr>, \<lparr>ts = 0, mvalue = (5::int)\<rparr>]) \<le> 4
   \<and> name (conns ex_registered 0) = ''water''
   \<and> ParseFloat ex_runtime ''5'' = Some 5
   \<and> handleMetric ex_runtime 0 [''level'', ''5''] ex_registered
       = (Inr ''ACK'',
          ex_registered\<lparr>stations := (stations ex_registered)(''water'' \<mapsto>
            \<lparr>metrics = [''level'' \<mapsto> [\<lparr>ts = 0, mvalue = 5\<rparr>]],
             st_c = 0, tipe = ''source'', runs = Map.empty\<rparr>)\<rparr>)"
proof -
  let ?pts = "[\<lparr>ts = 0, mvalue = 2\<rparr>, \<lparr>ts = 0, mvalue = 3\<rparr>,
               \<lparr>ts = 0, mvalue = 4\<rparr>, \<lparr>ts = 0, mvalue = (5::int)\<rparr>]"
  let ?st = "\<lparr>metrics = [''level'' \<mapsto> ?pts], st_c = 0, tipe = ''source'',
              runs = Map.empty\<rparr>"
  let ?fresh = "\<lparr>metrics = Map.empty, st_c = 0, tipe = ''source'', runs = Map.empty\<rparr>
    :: int Station"
  have mx: "(0::int) \<le> 4"
    by simp
  have w: "stations ex_metrics ''water'' = Some ?st"
    by (rule ex_metrics_water)
  have m: "metrics ?st ''level'' = Some ?pts"
    by simp
  have n: "name (conns ex_registered 0) = ''water''"
    and s0: "stations ex_registered ''water'' = Some ?fresh"
    and c: "maxMetricPoints ex_registered = 4"
    by (simp_all add: ex_registered_eq)
  have p: "ParseFloat ex_runtime ''5'' = Some 5"
    and t: "Now ex_runtime = 0"
    by (simp_all add: ex_runtime_def)
  have len: "int (length ?pts) \<le> 4"
    by (rule metric_series_capped
        [THEN conjunct1, rule_format, OF mx conjI, OF w [unfolded ex_metrics_def] m])
  have one: "handleMetric ex_runtime 0 [''level'', ''5''] ex_registered
       = (Inr ''ACK'',
          ex_registered\<lparr>stations := (stations ex_registered)(''water'' \<mapsto>
            \<lparr>metrics = [''level'' \<mapsto> [\<lparr>ts = 0, mvalue = 5\<rparr>]],
             st_c = 0, tipe = ''source'', runs = Map.empty\<rparr>)\<rparr>)"
    using metric_series_capped
        [THEN conjunct2, THEN conjunct1, rule_format,
         of ex_registered 0 _ ex_runtime "''5''" 5 _ "''level''"]
      n s0 c p t by simp
  from mx w len n p one show ?thesis
    by blast
qed

section \<open>The RPC relay\<close>

subsection \<open>Routing a RUN\<close>

text \<open>
  C4. RUN with three or four arguments: an unknown station name fails with
  UnknownStation; a nonce already pending at that station fails with NonceInUse; both
  leave the state as it was. Otherwise the line \<^verbatim>\<open>RUN <function> <nonce> [param]\<close> is
  written to the station's connection (no parameter field when there is none), the
  pending run is stored under the nonce, and the answer is ACK. Only the target
  station's table is consulted: a nonce pending at another station does not block it.
\<close>

theorem run_routes_or_rejects:
  assumes "args = [nm, fn, nonce] \<or> args = [nm, fn, nonce, param]"
  shows "(stations s nm = None \<longrightarrow> handleRun conn args s = (Inl (UnknownStation nm), s))
    \<and> (\<forall>st. stations s nm = Some st \<and> runs st nonce \<noteq> None \<longrightarrow>
          handleRun conn args s = (Inl (NonceInUse nonce), s))
    \<and> (\<forall>st. stations s nm = Some st \<and> runs st nonce = None \<longrightarrow>
          handleRun conn args s =
            (Inr ''ACK'',
             (Fprintf (st_c st)
                (''RUN '' @ fn @ '' '' @ nonce
                   @ (if length args = 4 then '' '' @ param else []) @ newline) s)
              \<lparr>stations := (stations s)(nm \<mapsto>
                 st\<lparr>runs := (runs st)(nonce \<mapsto> \<lparr>client = conn, run_name = nm\<rparr>)\<rparr>)\<rparr>))
    \<and> (\<forall>st other sto. stations s nm = Some st \<and> runs st nonce = None
          \<and> other \<noteq> nm \<and> stations s other = Some sto \<and> runs sto nonce \<noteq> None \<longrightarrow>
          fst (handleRun conn args s) = Inr ''ACK''
          \<and> (\<exists>st'. stations (snd (handleRun conn args s)) nm = Some st'
                \<and> runs st' nonce = Some \<lparr>client = conn, run_name = nm\<rparr>)
          \<and> stations (snd (handleRun conn args s)) other = Some sto)"
  using assms by (auto simp: handleRun_def Let_def Fprintf_Fprintf)

theorem run_routes_or_rejects_witness:
  "stations (snd (handleRegister 0 [''water'', ''source''] (NewServer 4 :: int Server))) ''fire'' = None
   \<and> handleRun 1 [''fire'', ''test'', ''n1'', ''1'']
        (snd (handleRegister 0 [''water'', ''source''] (NewServer 4 :: int Server)))
      = (Inl (UnknownStation ''fire''),
         snd (handleRegister 0 [''water'', ''source''] (NewServer 4 :: int Server)))
   \<and> fst (handleRun 1 [''water'', ''test'', ''n1'', ''1'']
        (snd (handleRegister 0 [''water'', ''source''] (NewServer 4 :: int Server)))) = Inr ''ACK''
   \<and> sent (conns (snd (handleRun 1 [''water'', ''test'', ''n1'', ''1'']
        (snd (handleRegister 0 [''water'', ''source''] (NewServer 4 :: int Server))))) 0)
      = ''RUN test n1 1'' @ newline
   \<and> fst (handleRun 1 [''water'', ''test'', ''n1'']
        (snd (handleRegister 0 [''water'', ''source''] (NewServer 4 :: int Server)))) = Inr ''ACK''
   \<and> sent (conns (snd (handleRun 1 [''water'', ''test'', ''n1'']
        (snd (handleRegister 0 [''water'', ''source''] (NewServer 4 :: int Server))))) 0)
      = ''RUN test n1'' @ newline"
proof -
  let ?s = "snd (handleRegister 0 [''water'', ''source''] (NewServer 4 :: int Server))"
  have st: "stations ?s ''water''
      = Some \<lparr>metrics = Map.empty, st_c = 0, tipe = ''source'', runs = Map.empty\<rparr>"
    and nf: "stations ?s ''fire'' = None"
    and se: "sent (conns ?s 0) = []"
    by (simp_all add: handleRegister_def NewServer_def Let_def)
  have a4: "[''water'', ''test'', ''n1'', ''1''] = [''water'', ''test'', ''n1'']
      \<or> [''water'', ''test'', ''n1'', ''1''] = [''water'', ''test'', ''n1'', ''1'']"
    and a3: "[''water'', ''test'', ''n1''] = [''water'', ''test'', ''n1'']
      \<or> [''water'', ''test'', ''n1''] = [''water'', ''test'', ''n1'', []]"
    and f4: "[''fire'', ''test'', ''n1'', ''1''] = [''fire'', ''test'', ''n1'']
      \<or> [''fire'', ''test'', ''n1'', ''1''] = [''fire'', ''test'', ''n1'', ''1'']"
    by simp_all
  from run_routes_or_rejects [OF a4, of ?s 1] run_routes_or_rejects [OF a3, of ?s 1]
    run_routes_or_rejects [OF f4, of ?s 1] st nf se
  show ?thesis
    by (simp add: Fprintf_sent)
qed

subsection \<open>Completing a run\<close>



lemma handleDone_pending:
  assumes "name (conns s conn) = nm" and "nm \<noteq> []" and "stations s nm = Some st"
    and "runs st nonce = Some r"
    and "dargs = [fn, nonce] \<or> dargs = [fn, nonce, result]"
  shows "handleDone conn dargs s =
    (Inr ''ACK'',
     (Fprintf (client r)
        (''DONE '' @ run_name r @ '' '' @ fn @ '' '' @ nonce
           @ (if length dargs = 3 then '' '' @ result else []) @ newline) s)
      \<lparr>stations := (stations s)(nm \<mapsto> st\<lparr>runs := (runs st)(nonce := None)\<rparr>)\<rparr>)"
  using assms by (auto simp: handleDone_def Let_def Fprintf_Fprintf)

lemma handleError_pending:
  assumes "name (conns s conn) = nm" and "nm \<noteq> []" and "stations s nm = Some st"
    and "runs st nonce = Some r"
  shows "handleError conn [fn, nonce] s =
    (Inr ''ACK'',
     (Fprintf (client r) (''ERR '' @ run_name r @ '' '' @ fn @ '' '' @ nonce @ newline) s)
      \<lparr>stations := (stations s)(nm \<mapsto> st\<lparr>runs := (runs st)(nonce := None)\<rparr>)\<rparr>)"
  using assms by (auto simp: handleError_def Let_def)
















subsection \<open>The name a pending run records\<close>

lemma runs_named_NewServer: "runs_named (NewServer mx)"
  by (simp add: runs_named_def NewServer_def)

lemma runs_named_Fprintf: "runs_named s \<Longrightarrow> runs_named (Fprintf w str s)"
  by (simp add: runs_named_def)

lemma runs_named_handleRegister: "runs_named s \<Longrightarrow> runs_named (snd (handleRegister conn args s))"
  by (auto simp: runs_named_def handleRegister_def Let_def split: if_splits)

lemma runs_named_handleMetric: "runs_named s \<Longrightarrow> runs_named (snd (handleMetric rt conn args s))"
  by (auto simp: runs_named_def handleMetric_def Let_def split: if_splits option.splits)

lemma runs_named_handleRun: "runs_named s \<Longrightarrow> runs_named (snd (handleRun conn args s))"
  by (auto simp: runs_named_def handleRun_def Let_def split: if_splits option.splits)

lemma runs_named_handleDone: "runs_named s \<Longrightarrow> runs_named (snd (handleDone conn args s))"
  by (auto simp: runs_named_def handleDone_def Let_def split: if_splits option.splits)

lemma runs_named_handleError: "runs_named s \<Longrightarrow> runs_named (snd (handleError conn args s))"
  by (auto simp: runs_named_def handleError_def Let_def split: if_splits option.splits)

lemma runs_named_handleLine: "runs_named s \<Longrightarrow> runs_named (handleLine rt conn scan s)"
  by (rule handleLine_preserves [where P = runs_named])
    (simp_all add: runs_named_Fprintf runs_named_handleRegister runs_named_handleMetric
      runs_named_handleRun runs_named_handleDone runs_named_handleError)

lemma runs_named_unregister: "runs_named s \<Longrightarrow> runs_named (unregister conn s)"
  by (auto simp: runs_named_def unregister_def split: if_splits)

lemma runs_named_step: "runs_named (fst sys) \<Longrightarrow> runs_named (fst (step ev sys))"
  by (cases ev; cases sys) (simp_all add: runs_named_handleLine runs_named_unregister)

lemma runs_named_run_events: "runs_named (fst sys) \<Longrightarrow> runs_named (fst (run_events evs sys))"
  by (induction evs arbitrary: sys) (simp_all add: runs_named_step)

lemma handleRun_inserts:
  assumes "length args = 3 \<or> length args = 4"
    and "stations s (args ! 0) = Some st" and "runs st (args ! 2) = None"
  shows "\<exists>st'. stations (snd (handleRun conn args s)) (args ! 0) = Some st'
    \<and> runs st' (args ! 2) = Some \<lparr>client = conn, run_name = args ! 0\<rparr>"
  using assms by (auto simp: handleRun_def Let_def)

text \<open>
  C10. In every state the server can reach from its start, whatever the interleaving
  of loop passes and disconnections, a pending run stored in a station's table records
  the registry name of that station. RUN establishes this (the run is stored in the
  table of the station found under the name it records), and every handler, every loop
  pass and the clean-up keep it.
\<close>

theorem pending_runs_name_their_station:
  "(\<forall>nm st nonce r.
       stations (fst (run_events evs (NewServer mx, {}))) nm = Some st
         \<and> runs st nonce = Some r \<longrightarrow> run_name r = nm)
   \<and> (\<forall>st. (length args = 3 \<or> length args = 4)
         \<and> stations s (args ! 0) = Some st \<and> runs st (args ! 2) = None \<longrightarrow>
         (\<exists>st'. stations (snd (handleRun conn args s)) (args ! 0) = Some st'
            \<and> runs st' (args ! 2) = Some \<lparr>client = conn, run_name = args ! 0\<rparr>))
   \<and> (runs_named s \<longrightarrow>
         runs_named (snd (handleRun conn args s))
       \<and> runs_named (snd (handleRegister conn args s))
       \<and> runs_named (snd (handleList rt conn args s))
       \<and> runs_named (snd (handleMetric rt conn args s))
       \<and> runs_named (snd (handleMetrics rt conn args s))
       \<and> runs_named (snd (handleDone conn args s))
       \<and> runs_named (snd (handleError conn args s))
       \<and> runs_named (handleLine rt conn scan s)
       \<and> runs_named (unregister conn s))"
proof (intro conjI)
  have "runs_named (fst (run_events evs (NewServer mx, {})))"
    by (rule runs_named_run_events) (simp add: runs_named_NewServer)
  then show "\<forall>nm st nonce r.
       stations (fst (run_events evs (NewServer mx, {}))) nm = Some st
         \<and> runs st nonce = Some r \<longrightarrow> run_name r = nm"
    unfolding runs_named_def .
  show "\<forall>st. (length args = 3 \<or> length args = 4)
         \<and> stations s (args ! 0) = Some st \<and> runs st (args ! 2) = None \<longrightarrow>
         (\<exists>st'. stations (snd (handleRun conn args s)) (args ! 0) = Some st'
            \<and> runs st' (args ! 2) = Some \<lparr>client = conn, run_name = args ! 0\<rparr>)"
    using handleRun_inserts by blast
  show "runs_named s \<longrightarrow>
         runs_named (snd (handleRun conn args s))
       \<and> runs_named (snd (handleRegister conn args s))
       \<and> runs_named (snd (handleList rt conn args s))
       \<and> runs_named (snd (handleMetric rt conn args s))
       \<and> runs_named (snd (handleMetrics rt conn args s))
       \<and> runs_named (snd (handleDone conn args s))
       \<and> runs_named (snd (handleError conn args s))
       \<and> runs_named (handleLine rt conn scan s)
       \<and> runs_named (unregister conn s)"
    by (simp add: runs_named_handleRun runs_named_handleRegister handleList_state
        runs_named_handleMetric handleMetrics_state runs_named_handleDone
        runs_named_handleError runs_named_handleLine runs_named_unregister)
qed

theorem pending_runs_name_their_station_witness:
  "stations (fst (run_events [Line 0 ex_runtime ''REGISTER water source'',
                    Line 1 ex_runtime ''RUN water test 123123123 1''] (NewServer 4, {}))) ''water''
     = Some \<lparr>metrics = Map.empty, st_c = 0, tipe = ''source'',
         runs = [''123123123'' \<mapsto> \<lparr>client = 1, run_name = ''water''\<rparr>]\<rparr>
   \<and> runs \<lparr>metrics = Map.empty :: string \<rightharpoonup> int metric list, st_c = 0, tipe = ''source'',
         runs = [''123123123'' \<mapsto> \<lparr>client = 1, run_name = ''water''\<rparr>]\<rparr> ''123123123''
     = Some \<lparr>client = 1, run_name = ''water''\<rparr>
   \<and> run_name \<lparr>client = 1, run_name = ''water''\<rparr> = ''water''"
proof -
  have "stations (fst (run_events [Line 0 ex_runtime ''REGISTER water source'',
                    Line 1 ex_runtime ''RUN water test 123123123 1''] (NewServer 4, {}))) ''water''
     = Some \<lparr>metrics = Map.empty, st_c = 0, tipe = ''source'',
         runs = [''123123123'' \<mapsto> \<lparr>client = 1, run_name = ''water''\<rparr>]\<rparr>"
    unfolding ex_session_state by simp
  moreover have "runs \<lparr>metrics = Map.empty :: string \<rightharpoonup> int metric list, st_c = 0, tipe = ''source'',
         runs = [''123123123'' \<mapsto> \<lparr>client = 1, run_name = ''water''\<rparr>]\<rparr> ''123123123''
     = Some \<lparr>client = 1, run_name = ''water''\<rparr>"
    by simp
  ultimately show ?thesis
    using pending_runs_name_their_station
      [of "[Line 0 ex_runtime ''REGISTER water source'',
            Line 1 ex_runtime ''RUN water test 123123123 1'']" 4]
    by blast
qed

text \<open>
  C5. In a state the server can reach, let a connection registered as station \<open>nm\<close>
  complete a run pending there under \<open>nonce\<close>, stored for the requester \<open>client r\<close>.
  DONE writes exactly \<^verbatim>\<open>DONE <nm> <function> <nonce>\<close>, followed by the result when the
  station gave one, and a newline, to the requester's connection; ERR writes exactly
  \<^verbatim>\<open>ERR <nm> <function> <nonce>\<close> and a newline. Nothing else is written, and an ERR
  that carries a third field is rejected before any write.
\<close>

theorem completion_lines_exact:
  assumes "fst (run_events evs (NewServer mx, {})) = s"
    and "name (conns s conn) = nm" and "nm \<noteq> []"
    and "stations s nm = Some st" and "runs st nonce = Some r"
  shows "handleDone conn [fn, nonce] s =
      (Inr ''ACK'',
       (Fprintf (client r) (''DONE '' @ nm @ '' '' @ fn @ '' '' @ nonce @ newline) s)
        \<lparr>stations := (stations s)(nm \<mapsto> st\<lparr>runs := (runs st)(nonce := None)\<rparr>)\<rparr>)
    \<and> handleDone conn [fn, nonce, result] s =
      (Inr ''ACK'',
       (Fprintf (client r)
          (''DONE '' @ nm @ '' '' @ fn @ '' '' @ nonce @ '' '' @ result @ newline) s)
        \<lparr>stations := (stations s)(nm \<mapsto> st\<lparr>runs := (runs st)(nonce := None)\<rparr>)\<rparr>)
    \<and> handleError conn [fn, nonce] s =
      (Inr ''ACK'',
       (Fprintf (client r) (''ERR '' @ nm @ '' '' @ fn @ '' '' @ nonce @ newline) s)
        \<lparr>stations := (stations s)(nm \<mapsto> st\<lparr>runs := (runs st)(nonce := None)\<rparr>)\<rparr>)
    \<and> handleError conn [fn, nonce, result] s = (Inl (BadArgCount [fn, nonce, result]), s)
    \<and> sent (conns (snd (handleDone conn [fn, nonce] s)) (client r))
        = sent (conns s (client r)) @ ''DONE '' @ nm @ '' '' @ fn @ '' '' @ nonce @ newline
    \<and> sent (conns (snd (handleDone conn [fn, nonce, result] s)) (client r))
        = sent (conns s (client r))
            @ ''DONE '' @ nm @ '' '' @ fn @ '' '' @ nonce @ '' '' @ result @ newline
    \<and> sent (conns (snd (handleError conn [fn, nonce] s)) (client r))
        = sent (conns s (client r)) @ ''ERR '' @ nm @ '' '' @ fn @ '' '' @ nonce @ newline"
proof -
  have "runs_named s"
    using runs_named_run_events [of "(NewServer mx, {})" evs] assms(1)
    by (simp add: runs_named_NewServer)
  then have nm: "run_name r = nm"
    using assms(4,5) by (auto simp: runs_named_def)
  have d2: "handleDone conn [fn, nonce] s =
      (Inr ''ACK'',
       (Fprintf (client r) (''DONE '' @ nm @ '' '' @ fn @ '' '' @ nonce @ newline) s)
        \<lparr>stations := (stations s)(nm \<mapsto> st\<lparr>runs := (runs st)(nonce := None)\<rparr>)\<rparr>)"
    using handleDone_pending [OF assms(2-5), of "[fn, nonce]" fn result] nm by simp
  have d3: "handleDone conn [fn, nonce, result] s =
      (Inr ''ACK'',
       (Fprintf (client r)
          (''DONE '' @ nm @ '' '' @ fn @ '' '' @ nonce @ '' '' @ result @ newline) s)
        \<lparr>stations := (stations s)(nm \<mapsto> st\<lparr>runs := (runs st)(nonce := None)\<rparr>)\<rparr>)"
    using handleDone_pending [OF assms(2-5), of "[fn, nonce, result]" fn result] nm by simp
  have e2: "handleError conn [fn, nonce] s =
      (Inr ''ACK'',
       (Fprintf (client r) (''ERR '' @ nm @ '' '' @ fn @ '' '' @ nonce @ newline) s)
        \<lparr>stations := (stations s)(nm \<mapsto> st\<lparr>runs := (runs st)(nonce := None)\<rparr>)\<rparr>)"
    using handleError_pending [OF assms(2-5), of fn] nm by simp
  have e3: "handleError conn [fn, nonce, result] s = (Inl (BadArgCount [fn, nonce, result]), s)"
    by (simp add: handleError_def)
  show ?thesis
    unfolding d2 d3 e2 e3 by (simp add: Fprintf_sent)
qed

theorem completion_lines_exact_witness:
  "name (conns ex_session 0) = ''water''
   \<and> stations ex_session ''water''
       = Some \<lparr>metrics = Map.empty, st_c = 0, tipe = ''source'',
           runs = [''123123123'' \<mapsto> \<lparr>client = 1, run_name = ''water''\<rparr>]\<rparr>
   \<and> sent (conns ex_session 1) = ''ACK'' @ newline
   \<and> sent (conns (snd (handleDone 0 [''test'', ''123123123'', ''0''] ex_session)) 1)
      = ''ACK'' @ newline @ ''DONE water test 123123123 0'' @ newline
   \<and> sent (conns (snd (handleError 0 [''test'', ''123123123''] ex_session)) 1)
      = ''ACK'' @ newline @ ''ERR water test 123123123'' @ newline"
proof -
  let ?st = "\<lparr>metrics = Map.empty, st_c = 0, tipe = ''source'',
         runs = [''123123123'' \<mapsto> \<lparr>client = 1, run_name = ''water''\<rparr>]\<rparr> :: int Station"
  let ?r = "\<lparr>client = 1, run_name = ''water''\<rparr>"
  have n: "name (conns ex_session 0) = ''water''"
    and ne: "''water'' \<noteq> []"
    and st: "stations ex_session ''water'' = Some ?st"
    and r: "runs ?st ''123123123'' = Some ?r"
    and se: "sent (conns ex_session 1) = ''ACK'' @ newline"
    by (simp_all add: ex_session_eq)
  from completion_lines_exact [OF ex_session_def [symmetric] n ne st r, of "''test''" "''0''"]
    n st se
  show ?thesis
    by (simp add: Fprintf_sent)
qed

section \<open>The dispatcher loop\<close>

subsection \<open>Commands that need a registered connection\<close>

lemma unregistered_handleMetric:
  "name (conns s conn) = [] \<Longrightarrow> \<exists>e. handleMetric rt conn args s = (Inl e, s)"
  by (auto simp: handleMetric_def Let_def split: option.splits)

lemma unregistered_handleDone:
  "name (conns s conn) = [] \<Longrightarrow> \<exists>e. handleDone conn args s = (Inl e, s)"
  by (auto simp: handleDone_def Let_def)

lemma unregistered_handleError:
  "name (conns s conn) = [] \<Longrightarrow> \<exists>e. handleError conn args s = (Inl e, s)"
  by (auto simp: handleError_def Let_def)

lemma handlerFor_station_cmds:
  "handlerFor rt ''METRIC'' = Some (handleMetric rt)"
  "handlerFor rt ''DONE'' = Some handleDone"
  "handlerFor rt ''ERR'' = Some handleError"
  by (simp_all add: handlerFor_def)

lemma unregistered_handleLine:
  assumes "name (conns s conn) = []"
    and "Split scan CHR '' '' ! 0 = ''METRIC'' \<or> Split scan CHR '' '' ! 0 = ''DONE''
      \<or> Split scan CHR '' '' ! 0 = ''ERR''"
  shows "handleLine rt conn scan s = Fprintf conn (''ERR'' @ newline) s"
proof -
  let ?args = "drop 1 (Split scan CHR '' '')"
  from assms(2) consider
    (m) "Split scan CHR '' '' ! 0 = ''METRIC''" | (d) "Split scan CHR '' '' ! 0 = ''DONE''"
    | (e) "Split scan CHR '' '' ! 0 = ''ERR''"
    by blast
  then show ?thesis
  proof cases
    case m
    obtain e where "handleMetric rt conn ?args s = (Inl e, s)"
      using unregistered_handleMetric [OF assms(1)] by blast
    then show ?thesis
      using handleLine_error [of rt scan "handleMetric rt" conn s e s] m
      by (simp add: handlerFor_station_cmds)
  next
    case d
    obtain e where "handleDone conn ?args s = (Inl e, s)"
      using unregistered_handleDone [OF assms(1)] by blast
    then show ?thesis
      using handleLine_error [of rt scan handleDone conn s e s] d
      by (simp add: handlerFor_station_cmds)
  next
    case e
    obtain e' where "handleError conn ?args s = (Inl e', s)"
      using unregistered_handleError [OF assms(1)] by blast
    then show ?thesis
      using handleLine_error [of rt scan handleError conn s e' s] e
      by (simp add: handlerFor_station_cmds)
  qed
qed

text \<open>
  C6. On a connection whose tag is empty (it has not registered), METRIC, DONE and ERR
  fail whatever their arguments, leave the state as it was, and the dispatcher answers
  the generic \<^verbatim>\<open>ERR\<close>. REGISTER, LIST, METRICS and RUN do not look at the tag: their
  outcome is the same for any connection store, and from such a connection they
  succeed whenever the registry allows (a free name for REGISTER, a known station for
  METRICS, a known station and a free nonce for RUN).
\<close>

theorem station_commands_need_registration:
  assumes "name (conns s conn) = []"
  shows "(\<exists>e. handleMetric rt conn args s = (Inl e, s))
    \<and> (\<exists>e. handleDone conn args s = (Inl e, s))
    \<and> (\<exists>e. handleError conn args s = (Inl e, s))
    \<and> (Split scan CHR '' '' ! 0 = ''METRIC'' \<or> Split scan CHR '' '' ! 0 = ''DONE''
          \<or> Split scan CHR '' '' ! 0 = ''ERR'' \<longrightarrow>
        handleLine rt conn scan s = Fprintf conn (''ERR'' @ newline) s)
    \<and> fst (handleRegister conn args (s\<lparr>conns := cs\<rparr>)) = fst (handleRegister conn args s)
    \<and> fst (handleList rt conn args (s\<lparr>conns := cs\<rparr>)) = fst (handleList rt conn args s)
    \<and> fst (handleMetrics rt conn args (s\<lparr>conns := cs\<rparr>)) = fst (handleMetrics rt conn args s)
    \<and> fst (handleRun conn args (s\<lparr>conns := cs\<rparr>)) = fst (handleRun conn args s)
    \<and> (stations s nm = None \<longrightarrow> fst (handleRegister conn [nm, tp] s) = Inr ''ACK'')
    \<and> (\<exists>resp. fst (handleList rt conn [] s) = Inr resp)
    \<and> (stations s nm \<noteq> None \<longrightarrow> (\<exists>resp. fst (handleMetrics rt conn [nm] s) = Inr resp))
    \<and> (\<forall>st. stations s nm = Some st \<and> runs st nonce = None \<longrightarrow>
          fst (handleRun conn [nm, fn, nonce] s) = Inr ''ACK''
        \<and> fst (handleRun conn [nm, fn, nonce, param] s) = Inr ''ACK'')"
proof (intro conjI)
  show "\<exists>e. handleMetric rt conn args s = (Inl e, s)"
    by (rule unregistered_handleMetric [OF assms])
  show "\<exists>e. handleDone conn args s = (Inl e, s)"
    by (rule unregistered_handleDone [OF assms])
  show "\<exists>e. handleError conn args s = (Inl e, s)"
    by (rule unregistered_handleError [OF assms])
  show "Split scan CHR '' '' ! 0 = ''METRIC'' \<or> Split scan CHR '' '' ! 0 = ''DONE''
          \<or> Split scan CHR '' '' ! 0 = ''ERR'' \<longrightarrow>
        handleLine rt conn scan s = Fprintf conn (''ERR'' @ newline) s"
    using unregistered_handleLine [OF assms] by blast
  show "fst (handleRegister conn args (s\<lparr>conns := cs\<rparr>)) = fst (handleRegister conn args s)"
    by (simp add: handleRegister_def Let_def)
  show "fst (handleList rt conn args (s\<lparr>conns := cs\<rparr>)) = fst (handleList rt conn args s)"
    by (simp add: handleList_def)
  show "fst (handleMetrics rt conn args (s\<lparr>conns := cs\<rparr>)) = fst (handleMetrics rt conn args s)"
    by (simp add: handleMetrics_def Let_def split: option.splits)
  show "fst (handleRun conn args (s\<lparr>conns := cs\<rparr>)) = fst (handleRun conn args s)"
    by (simp add: handleRun_def Let_def split: option.splits)
  show "stations s nm = None \<longrightarrow> fst (handleRegister conn [nm, tp] s) = Inr ''ACK''"
    by (simp add: handleRegister_def Let_def)
  show "\<exists>resp. fst (handleList rt conn [] s) = Inr resp"
    by (simp add: handleList_def)
  show "stations s nm \<noteq> None \<longrightarrow> (\<exists>resp. fst (handleMetrics rt conn [nm] s) = Inr resp)"
    by (auto simp: handleMetrics_def Let_def)
  show "\<forall>st. stations s nm = Some st \<and> runs st nonce = None \<longrightarrow>
          fst (handleRun conn [nm, fn, nonce] s) = Inr ''ACK''
        \<and> fst (handleRun conn [nm, fn, nonce, param] s) = Inr ''ACK''"
    by (auto simp: handleRun_def Let_def)
qed

theorem station_commands_need_registration_witness:
  "name (conns ex_registered 1) = []
   \<and> handleLine ex_runtime 1 ''METRIC test 10.000'' ex_registered
       = Fprintf 1 (''ERR'' @ newline) ex_registered
   \<and> handleLine ex_runtime 1 ''DONE test 123123123 0'' ex_registered
       = Fprintf 1 (''ERR'' @ newline) ex_registered
   \<and> handleLine ex_runtime 1 ''ERR test 123123123'' ex_registered
       = Fprintf 1 (''ERR'' @ newline) ex_registered
   \<and> fst (handleRegister 1 [''fire'', ''heater''] ex_registered) = Inr ''ACK''
   \<and> fst (handleRun 1 [''water'', ''test'', ''123123123'', ''1''] ex_registered) = Inr ''ACK''"
proof -
  have n: "name (conns ex_registered 1) = []"
    and f: "stations ex_registered ''fire'' = None"
    and w: "stations ex_registered ''water''
      = Some \<lparr>metrics = Map.empty, st_c = 0, tipe = ''source'', runs = Map.empty\<rparr>"
    by (simp_all add: ex_registered_eq)
  have m: "Split ''METRIC test 10.000'' CHR '' '' ! 0 = ''METRIC''"
    and d: "Split ''DONE test 123123123 0'' CHR '' '' ! 0 = ''DONE''"
    and e: "Split ''ERR test 123123123'' CHR '' '' ! 0 = ''ERR''"
    by simp_all
  from station_commands_need_registration
      [OF n, of ex_runtime _ "''METRIC test 10.000''" _ "''fire''" "''heater''"]
    station_commands_need_registration [OF n, of ex_runtime _ "''DONE test 123123123 0''"]
    station_commands_need_registration
      [OF n, of ex_runtime _ "''ERR test 123123123''" _ "''water''" _ "''123123123''" "''test''" "''1''"]
    n f w m d e
  show ?thesis
    by simp
qed

subsection \<open>Errors and the empty line\<close>

text \<open>
  C7. A line that draws an error answer never ends the session. If its first token is
  no command, the dispatcher writes \<^verbatim>\<open>ERR UNRECOGNIZED CMD\<close>; if the handler fails (for
  whatever reason: arity, float, unknown station, metric or nonce, missing or duplicate
  registration), it writes \<^verbatim>\<open>ERR\<close>. In both cases the written line is the only change
  of the state, the loop goes on with the remaining lines from there, and the
  connection is not among the ended ones afterwards unless it was before.
\<close>

theorem errors_never_end_session:
  "(handlerFor rt (Split scan CHR '' '' ! 0) = None \<longrightarrow>
      handleLine rt conn scan s = Fprintf conn (''ERR UNRECOGNIZED CMD'' @ newline) s
    \<and> scanLoop conn ((rt, scan) # rest) s
        = scanLoop conn rest (Fprintf conn (''ERR UNRECOGNIZED CMD'' @ newline) s)
    \<and> step (Line conn rt scan) (s, gone)
        = ((if conn \<in> gone then s
            else Fprintf conn (''ERR UNRECOGNIZED CMD'' @ newline) s), gone))
   \<and> (\<forall>fn e s'. handlerFor rt (Split scan CHR '' '' ! 0) = Some fn
         \<and> fn conn (drop 1 (Split scan CHR '' '')) s = (Inl e, s') \<longrightarrow>
      s' = s
    \<and> handleLine rt conn scan s = Fprintf conn (''ERR'' @ newline) s
    \<and> scanLoop conn ((rt, scan) # rest) s
        = scanLoop conn rest (Fprintf conn (''ERR'' @ newline) s)
    \<and> step (Line conn rt scan) (s, gone)
        = ((if conn \<in> gone then s else Fprintf conn (''ERR'' @ newline) s), gone))"
proof (intro conjI impI allI)
  assume u: "handlerFor rt (Split scan CHR '' '' ! 0) = None"
  note h = handleLine_unrecognized [OF u, of conn s]
  show "handleLine rt conn scan s = Fprintf conn (''ERR UNRECOGNIZED CMD'' @ newline) s"
    by (rule h)
  show "scanLoop conn ((rt, scan) # rest) s
        = scanLoop conn rest (Fprintf conn (''ERR UNRECOGNIZED CMD'' @ newline) s)"
    by (simp add: h)
  show "step (Line conn rt scan) (s, gone)
        = ((if conn \<in> gone then s
            else Fprintf conn (''ERR UNRECOGNIZED CMD'' @ newline) s), gone)"
    by (simp add: h)
next
  fix fn e s'
  assume a: "handlerFor rt (Split scan CHR '' '' ! 0) = Some fn
         \<and> fn conn (drop 1 (Split scan CHR '' '')) s = (Inl e, s')"
  then have f: "handlerFor rt (Split scan CHR '' '' ! 0) = Some fn"
    and r: "fn conn (drop 1 (Split scan CHR '' '')) s = (Inl e, s')"
    by simp_all
  note h = handleLine_error [OF f r]
  show "s' = s"
    by (rule handlerFor_error [OF f r])
  show "handleLine rt conn scan s = Fprintf conn (''ERR'' @ newline) s"
    by (rule h)
  show "scanLoop conn ((rt, scan) # rest) s
        = scanLoop conn rest (Fprintf conn (''ERR'' @ newline) s)"
    by (simp add: h)
  show "step (Line conn rt scan) (s, gone)
        = ((if conn \<in> gone then s else Fprintf conn (''ERR'' @ newline) s), gone)"
    by (simp add: h)
qed

theorem errors_never_end_session_witness:
  "handlerFor ex_runtime (Split ''DOODLE'' CHR '' '' ! 0) = None
   \<and> handlerFor ex_runtime (Split ''LIST SOMETHING'' CHR '' '' ! 0) = Some (handleList ex_runtime)
   \<and> handleList ex_runtime 0 (drop 1 (Split ''LIST SOMETHING'' CHR '' '')) (NewServer 4)
       = (Inl (BadArgCount [''SOMETHING'']), NewServer 4)
   \<and> sent (conns (scanLoop 0 [(ex_runtime, ''DOODLE''), (ex_runtime, ''LIST SOMETHING''),
                                (ex_runtime, ''REGISTER water source'')] (NewServer 4)) 0)
       = ''ERR UNRECOGNIZED CMD'' @ newline @ ''ERR'' @ newline @ ''ACK'' @ newline
   \<and> name (conns (scanLoop 0 [(ex_runtime, ''DOODLE''), (ex_runtime, ''LIST SOMETHING''),
                                (ex_runtime, ''REGISTER water source'')] (NewServer 4)) 0)
       = ''water''"
proof -
  let ?s1 = "Fprintf 0 (''ERR UNRECOGNIZED CMD'' @ newline) (NewServer 4 :: int Server)"
  have u: "handlerFor ex_runtime (Split ''DOODLE'' CHR '' '' ! 0) = None"
    and l: "handlerFor ex_runtime (Split ''LIST SOMETHING'' CHR '' '' ! 0)
      = Some (handleList ex_runtime)"
    by (simp_all add: handlerFor_def)
  have e0: "handleList ex_runtime 0 (drop 1 (Split ''LIST SOMETHING'' CHR '' '')) (NewServer 4)
       = (Inl (BadArgCount [''SOMETHING'']), NewServer 4)"
    and e: "handleList ex_runtime 0 (drop 1 (Split ''LIST SOMETHING'' CHR '' '')) ?s1
       = (Inl (BadArgCount [''SOMETHING'']), ?s1)"
    by (simp_all add: handleList_def)
  have r: "handleLine ex_runtime 0 ''REGISTER water source''
      (Fprintf 0 (''ERR'' @ newline) ?s1)
     = \<lparr>maxMetricPoints = 4,
        stations = [''water'' \<mapsto>
          \<lparr>metrics = Map.empty, st_c = 0, tipe = ''source'', runs = Map.empty\<rparr>],
        conns = (\<lambda>_. \<lparr>name = [], sent = []\<rparr>)
          (0 := \<lparr>name = ''water'',
                 sent = ''ERR UNRECOGNIZED CMD'' @ newline @ ''ERR'' @ newline @ ''ACK'' @ newline\<rparr>)\<rparr>"
    by (simp add: drops_eval)
  have a: "scanLoop 0 [(ex_runtime, ''DOODLE''), (ex_runtime, ''LIST SOMETHING''),
                        (ex_runtime, ''REGISTER water source'')] (NewServer 4)
      = scanLoop 0 [(ex_runtime, ''LIST SOMETHING''),
                    (ex_runtime, ''REGISTER water source'')] ?s1"
    using errors_never_end_session [of ex_runtime "''DOODLE''" 0 "NewServer 4"] u by blast
  have b: "scanLoop 0 [(ex_runtime, ''LIST SOMETHING''),
                    (ex_runtime, ''REGISTER water source'')] ?s1
      = scanLoop 0 [(ex_runtime, ''REGISTER water source'')] (Fprintf 0 (''ERR'' @ newline) ?s1)"
    using errors_never_end_session [of ex_runtime "''LIST SOMETHING''" 0 ?s1] l e by blast
  show ?thesis
    unfolding a b using u l e0 r by simp
qed

text \<open>
  C9. An empty input line: splitting it on spaces gives the single empty token, which
  no branch of the switch matches, so the dispatcher answers
  \<^verbatim>\<open>ERR UNRECOGNIZED CMD\<close>, changes nothing else, and the loop goes on with the next
  line.
\<close>

theorem blank_line_unrecognized:
  "Split [] CHR '' '' = [[]]
   \<and> handlerFor rt [] = None
   \<and> handleLine rt conn [] s = Fprintf conn (''ERR UNRECOGNIZED CMD'' @ newline) s
   \<and> scanLoop conn ((rt, []) # rest) s
       = scanLoop conn rest (Fprintf conn (''ERR UNRECOGNIZED CMD'' @ newline) s)"
  by (simp add: handlerFor_def handleLine_def)

subsection \<open>The end of a connection\<close>

text \<open>
  What the clean-up does: for a connection with a non-empty tag it removes the registry
  entry under that tag and nothing else; no connection is written to.
\<close>

lemma unregister_frame:
  assumes "name (conns s conn) \<noteq> []"
  shows "unregister conn s = s\<lparr>stations := (stations s)(name (conns s conn) := None)\<rparr>"
    and "conns (unregister conn s) = conns s"
    and "maxMetricPoints (unregister conn s) = maxMetricPoints s"
    and "unregister conn (unregister conn s) = unregister conn s"
proof -
  have "(stations s)(name (conns s conn) := None) = stations s"
    if "stations s (name (conns s conn)) = None"
    using that by (simp add: fun_upd_idem_iff)
  then show "unregister conn s = s\<lparr>stations := (stations s)(name (conns s conn) := None)\<rparr>"
    using assms by (auto simp: unregister_def)
  show "conns (unregister conn s) = conns s"
    and "maxMetricPoints (unregister conn s) = maxMetricPoints s"
    and "unregister conn (unregister conn s) = unregister conn s"
    by (auto simp: unregister_def)
qed

lemma unregister_unregistered: "name (conns s conn) = [] \<Longrightarrow> unregister conn s = s"
  by (simp add: unregister_def)

text \<open>
  C8 says that when the connection of a registered station ends, the station's entry
  is removed from the registry. The code removes only the entry under the tag the
  connection carries at that moment, and only when the tag is not empty. Two sessions
  where a registered station outlives its connection: connection 0 registers as
  \<^verbatim>\<open>water\<close> and then as \<^verbatim>\<open>fire\<close>, and ends; station \<^verbatim>\<open>water\<close>, still owned by
  connection 0, stays in the registry. Connection 0 registers under the empty name
  (two spaces after \<^verbatim>\<open>REGISTER\<close>) and ends; that station stays too. In both, nothing
  is written at the end of the connection.
\<close>

theorem disconnect_leaves_station_registered:
  "stations (fst (run_events [Line 0 ex_runtime ''REGISTER water source'',
                              Line 0 ex_runtime ''REGISTER fire heater'',
                              Closed 0] (NewServer 4, {}))) ''water''
     = Some \<lparr>metrics = Map.empty, st_c = 0, tipe = ''source'', runs = Map.empty\<rparr>
   \<and> stations (fst (run_events [Line 0 ex_runtime ''REGISTER water source'',
                              Line 0 ex_runtime ''REGISTER fire heater'',
                              Closed 0] (NewServer 4, {}))) ''fire'' = None
   \<and> snd (run_events [Line 0 ex_runtime ''REGISTER water source'',
                       Line 0 ex_runtime ''REGISTER fire heater'',
                       Closed 0] (NewServer 4 :: int Server, {})) = {0}
   \<and> sent (conns (fst (run_events [Line 0 ex_runtime ''REGISTER water source'',
                              Line 0 ex_runtime ''REGISTER fire heater'',
                              Closed 0] (NewServer 4, {}))) 0)
     = ''ACK'' @ newline @ ''ACK'' @ newline
   \<and> stations (fst (run_events [Line 0 ex_runtime ''REGISTER  source'',
                              Closed 0] (NewServer 4, {}))) []
     = Some \<lparr>metrics = Map.empty, st_c = 0, tipe = ''source'', runs = Map.empty\<rparr>
   \<and> snd (run_events [Line 0 ex_runtime ''REGISTER  source'',
                       Closed 0] (NewServer 4 :: int Server, {})) = {0}
   \<and> sent (conns (fst (run_events [Line 0 ex_runtime ''REGISTER  source'',
                              Closed 0] (NewServer 4, {}))) 0)
     = ''ACK'' @ newline"
  by (simp add: drops_eval)

end
